theory Spec2Isabelle
  imports Complex_Main "HOL-Library.Sublist" "HOL-Library.Multiset" "HOL-Library.Word"
begin

section \<open>JavaScript values and strings\<close>

text \<open>
  The server stores answers and answer keys as Mongoose \<^verbatim>\<open>Mixed\<close> values, which hold
  whatever the JSON body carried. A value is \<^verbatim>\<open>undefined\<close> (a missing field), \<^verbatim>\<open>null\<close>,
  a boolean, a number, a string, an array or an object. The handlers do two things with
  such a value: they test it for truthiness (\<^verbatim>\<open>ans.answer || ''\<close>) and they convert it
  with \<^verbatim>\<open>String(v)\<close>. The type below keeps exactly what these two need.

  \<^item> \<open>JInt w\<close> is the number \<open>sint w\<close>, an integer \<open>n\<close> with \<open>- 2^53 \<le> n < 2^53\<close>. Every
    such integer is a double, and \<^verbatim>\<open>String\<close> prints it in plain decimal (the exponent
    notation starts at \<open>10^21\<close>). The number \<^verbatim>\<open>-0\<close> is falsy and printed \<^verbatim>\<open>0\<close>, as \<open>0\<close> is;
    JSON has neither \<^verbatim>\<open>NaN\<close> nor an infinity.
  \<^item> \<open>JOther s\<close> is any other value: a number that is not such an integer, an array or
    an object. All of these are truthy; \<open>s\<close> is the string that \<^verbatim>\<open>String(v)\<close> returns for
    it, such as \<^verbatim>\<open>1e+21\<close> for \<^verbatim>\<open>1e21\<close>, \<^verbatim>\<open>0.5\<close> for \<^verbatim>\<open>0.5\<close>, \<^verbatim>\<open>a,b\<close> for \<^verbatim>\<open>['a','b']\<close> and
    \<^verbatim>\<open>[object Object]\<close> for \<^verbatim>\<open>{}\<close>. An object whose conversion throws (its \<^verbatim>\<open>toString\<close>
    and \<^verbatim>\<open>valueOf\<close> are not callable) is not a value of the type.

  A string is a list of characters with codes \<open>0\<close> to \<open>255\<close>, read as the code points
  U+0000 to U+00FF; \<^verbatim>\<open>trim\<close> and \<^verbatim>\<open>toLowerCase\<close> are given on all of them. Strings with
  characters beyond U+00FF are not values of the type.
\<close>

datatype jsval = JUndefined | JNull | JBool bool | JInt "54 word" | JStr string | JOther string

text \<open>Decimal rendering of a natural number, as a template literal or \<^verbatim>\<open>String(n)\<close> prints it.\<close>

fun show_nat :: "nat \<Rightarrow> string" where
  "show_nat n =
     (if n < 10 then [''0123456789'' ! n]
      else show_nat (n div 10) @ [''0123456789'' ! (n mod 10)])"

declare show_nat.simps [simp del]

text \<open>\<^verbatim>\<open>String(v)\<close>.\<close>

fun js_String :: "jsval \<Rightarrow> string" where
  "js_String JUndefined = ''undefined''"
| "js_String JNull = ''null''"
| "js_String (JBool b) = (if b then ''true'' else ''false'')"
| "js_String (JInt w) =
     (if sint w < 0 then CHR ''-'' # show_nat (nat (- sint w)) else show_nat (nat (sint w)))"
| "js_String (JStr s) = s"
| "js_String (JOther s) = s"

text \<open>Truthiness, and \<^verbatim>\<open>a || b\<close>.\<close>

fun truthy :: "jsval \<Rightarrow> bool" where
  "truthy JUndefined = False"
| "truthy JNull = False"
| "truthy (JBool b) = b"
| "truthy (JInt w) = (w \<noteq> 0)"
| "truthy (JStr s) = (s \<noteq> [])"
| "truthy (JOther s) = True"

definition js_or :: "jsval \<Rightarrow> jsval \<Rightarrow> jsval" where
  "js_or a b = (if truthy a then a else b)"

text \<open>
  \<^verbatim>\<open>toLowerCase\<close>: below U+0100 the capital letters are A to Z (U+0041 to U+005A) and
  U+00C0 to U+00DE without the multiplication sign U+00D7; each is mapped to the letter
  32 places on, every other character is kept.
\<close>

definition upper_chars :: string where
  "upper_chars = ''ABCDEFGHIJKLMNOPQRSTUVWXYZ'' @
     [CHR 0xC0, CHR 0xC1, CHR 0xC2, CHR 0xC3, CHR 0xC4, CHR 0xC5, CHR 0xC6, CHR 0xC7,
      CHR 0xC8, CHR 0xC9, CHR 0xCA, CHR 0xCB, CHR 0xCC, CHR 0xCD, CHR 0xCE, CHR 0xCF,
      CHR 0xD0, CHR 0xD1, CHR 0xD2, CHR 0xD3, CHR 0xD4, CHR 0xD5, CHR 0xD6,
      CHR 0xD8, CHR 0xD9, CHR 0xDA, CHR 0xDB, CHR 0xDC, CHR 0xDD, CHR 0xDE]"

definition lower_chars :: string where
  "lower_chars = ''abcdefghijklmnopqrstuvwxyz'' @
     [CHR 0xE0, CHR 0xE1, CHR 0xE2, CHR 0xE3, CHR 0xE4, CHR 0xE5, CHR 0xE6, CHR 0xE7,
      CHR 0xE8, CHR 0xE9, CHR 0xEA, CHR 0xEB, CHR 0xEC, CHR 0xED, CHR 0xEE, CHR 0xEF,
      CHR 0xF0, CHR 0xF1, CHR 0xF2, CHR 0xF3, CHR 0xF4, CHR 0xF5, CHR 0xF6,
      CHR 0xF8, CHR 0xF9, CHR 0xFA, CHR 0xFB, CHR 0xFC, CHR 0xFD, CHR 0xFE]"

definition toLowerCase_char :: "char \<Rightarrow> char" where
  "toLowerCase_char c =
     (case map_of (zip upper_chars lower_chars) c of
        Some d \<Rightarrow> d
      | None \<Rightarrow> c)"

definition toLowerCase :: "string \<Rightarrow> string" where
  "toLowerCase s = map toLowerCase_char s"

text \<open>
  \<^verbatim>\<open>trim\<close> removes white space and line terminators from both ends; below U+0100 these
  are TAB, LF, VT, FF, CR, the space and the no-break space U+00A0.
\<close>

definition is_ws :: "char \<Rightarrow> bool" where
  "is_ws c = (c \<in> set [CHR 0x09, CHR 0x0A, CHR 0x0B, CHR 0x0C, CHR 0x0D, CHR 0x20, CHR 0xA0])"

definition trim :: "string \<Rightarrow> string" where
  "trim s = rev (dropWhile is_ws (rev (dropWhile is_ws s)))"

text \<open>
  \<^verbatim>\<open>s.split(' ')\<close>: the pieces between consecutive space characters. The result is never
  empty; two adjacent spaces give an empty piece.
\<close>

fun split_space :: "string \<Rightarrow> string list" where
  "split_space [] = [[]]"
| "split_space (c # cs) =
     (if c = CHR '' '' then [] # split_space cs
      else (case split_space cs of
              [] \<Rightarrow> [[c]]
            | w # ws \<Rightarrow> (c # w) # ws))"

text \<open>\<^verbatim>\<open>s.includes(w)\<close>: \<open>w\<close> occurs in \<open>s\<close> as a contiguous run.\<close>

fun js_includes :: "string \<Rightarrow> string \<Rightarrow> bool" where
  "js_includes [] w = (w = [])"
| "js_includes (c # cs) w = (prefix w (c # cs) \<or> js_includes cs w)"

section \<open>Numbers\<close>

text \<open>
  The numbers of the schema (\<^verbatim>\<open>marks\<close>, \<^verbatim>\<open>totalMarks\<close>, \<^verbatim>\<open>passingMarks\<close>,
  \<^verbatim>\<open>tabSwitchLimit\<close>, \<^verbatim>\<open>score\<close>) are JavaScript Numbers, IEEE 754 doubles. A finite
  double is modelled by the rational it denotes, and an arithmetic operation by the exact
  operation followed by \<open>fl\<close>, the rounding to the nearest double (53 significant bits,
  ties to the even significand). Overflow to infinity, gradual underflow and NaN are outside
  the model. Comparisons are exact, and so are the operations written without \<open>fl\<close> below:
  doubling a double, counting violations and subtracting two dates in milliseconds.
\<close>

text \<open>The number of binary digits of a natural number.\<close>

fun bitlen :: "nat \<Rightarrow> nat" where
  "bitlen n = (if n = 0 then 0 else Suc (bitlen (n div 2)))"

declare bitlen.simps [simp del]

text \<open>The binary exponent of a positive rational \<open>a\<close>: the \<open>e\<close> with \<open>2^e \<le> a < 2^(e+1)\<close>.\<close>

definition expo :: "rat \<Rightarrow> int" where
  "expo a = (if a \<ge> 1 then int (bitlen (nat \<lfloor>a\<rfloor>)) - 1
             else - int (bitlen (nat (\<lceil>1 / a\<rceil> - 1))))"

definition pow2 :: "int \<Rightarrow> rat" where
  "pow2 e = (if e \<ge> 0 then 2 ^ nat e else 1 / 2 ^ nat (- e))"

definition round_half_even :: "rat \<Rightarrow> int" where
  "round_half_even x =
     (let f = \<lfloor>x\<rfloor>; r = x - of_int f
      in if r < 1 / 2 then f else if r > 1 / 2 then f + 1 else if even f then f else f + 1)"

definition fl :: "rat \<Rightarrow> rat" where
  "fl x = (if x = 0 then 0
           else let a = \<bar>x\<bar>; u = pow2 (expo a - 52)
                in sgn x * of_int (round_half_even (a / u)) * u)"

text \<open>\<^verbatim>\<open>a + b\<close>, \<^verbatim>\<open>a * b\<close> and \<^verbatim>\<open>a / b\<close> on Numbers.\<close>

definition fadd :: "rat \<Rightarrow> rat \<Rightarrow> rat" where
  "fadd a b = fl (a + b)"

definition fmul :: "rat \<Rightarrow> rat \<Rightarrow> rat" where
  "fmul a b = fl (a * b)"

definition fdiv :: "rat \<Rightarrow> rat \<Rightarrow> rat" where
  "fdiv a b = fl (a / b)"

text \<open>
  \<^verbatim>\<open>Math.round\<close>: the nearest integer, a half rounded up. The result is computed from
  the exact value of its argument.
\<close>

definition Math_round :: "rat \<Rightarrow> int" where
  "Math_round x = \<lfloor>x + 1 / 2\<rfloor>"

section \<open>Documents\<close>

text \<open>
  The documents of the three collections with the fields the handlers below read or write.
  Object identities are natural numbers. The type of an exam's questions is a parameter:
  the start route returns the exam with its questions sanitized.
\<close>

type_synonym objectid = nat

datatype qtype = multiple_choice | true_false | short_answer

record question_doc =
  q_id :: objectid
  q_type :: qtype
  questionText :: string
  options :: "string list"
  correctAnswer :: jsval
  marks :: rat
  explanation :: "string option"

record 'q exam_rec =
  exam_id :: objectid
  title :: string
  subject :: string
  instructor :: objectid
  duration :: rat
  exam_totalMarks :: rat
  passingMarks :: rat
  startTime :: "int option"
  endTime :: "int option"
  questions :: "'q list"
  tabSwitchLimit :: rat
  isPublished :: bool
  allowMultipleAttempts :: bool

type_synonym exam_doc = "question_doc exam_rec"

record answer_doc =
  questionId :: objectid
  answer :: jsval
  isCorrect :: "bool option"
  marksAwarded :: rat

datatype severity = low | medium | high | critical

record violation_doc =
  v_type :: string
  description :: "string option"
  v_timestamp :: int
  severity :: severity

datatype status = in_progress | submitted | auto_submitted | flagged_status | cancelled

record attempt_doc =
  attempt_id :: objectid
  exam :: objectid
  student :: objectid
  startedAt :: int
  submittedAt :: "int option"
  timeSpent :: "int option"
  answers :: "answer_doc list"
  score :: rat
  totalMarks :: rat
  percentage :: int
  passed :: bool
  violations :: "violation_doc list"
  tabSwitches :: nat
  webcamSnapshots :: "(string \<times> int) list"
  status :: status
  flagged :: bool
  flagReason :: "string option"

section \<open>Auto-grading\<close>

text \<open>\<^verbatim>\<open>exam.questions.id(ans.questionId)\<close>: the first question with that identity.\<close>

definition questions_id :: "question_doc list \<Rightarrow> objectid \<Rightarrow> question_doc option" where
  "questions_id qs i = find (\<lambda>q. q_id q = i) qs"

text \<open>The comparison of the \<^verbatim>\<open>multiple_choice\<close> / \<^verbatim>\<open>true_false\<close> branch.\<close>

definition choice_isCorrect :: "jsval \<Rightarrow> jsval \<Rightarrow> bool" where
  "choice_isCorrect a c =
     (trim (toLowerCase (js_String a)) = trim (toLowerCase (js_String c)))"

text \<open>The comparison of the \<^verbatim>\<open>short_answer\<close> branch.\<close>

definition short_isCorrect :: "jsval \<Rightarrow> jsval \<Rightarrow> bool" where
  "short_isCorrect a c =
     (let correct = trim (toLowerCase (js_String c));
          student = trim (toLowerCase (js_String (js_or a (JStr []))))
      in student = correct \<or> list_all (\<lambda>w. js_includes student w) (split_space correct))"

text \<open>
  One turn of the grading loop: the answer as the loop leaves it and the running total.
  An answer whose question is gone is skipped (\<^verbatim>\<open>continue\<close>).
\<close>

definition grade_step :: "question_doc list \<Rightarrow> answer_doc \<Rightarrow> rat \<Rightarrow> answer_doc \<times> rat" where
  "grade_step qs ans totalScore =
     (case questions_id qs (questionId ans) of
        None \<Rightarrow> (ans, totalScore)
      | Some question \<Rightarrow>
          if q_type question = multiple_choice \<or> q_type question = true_false then
            let c = choice_isCorrect (answer ans) (correctAnswer question);
                ans' = ans\<lparr>isCorrect := Some c, marksAwarded := (if c then marks question else 0)\<rparr>
            in (ans', fadd totalScore (marksAwarded ans'))
          else if q_type question = short_answer then
            let c = short_isCorrect (answer ans) (correctAnswer question);
                ans' = ans\<lparr>isCorrect := Some c, marksAwarded := (if c then marks question else 0)\<rparr>
            in (ans', fadd totalScore (marksAwarded ans'))
          else (ans, totalScore))"

fun grade_loop :: "question_doc list \<Rightarrow> answer_doc list \<Rightarrow> rat \<Rightarrow> answer_doc list \<times> rat" where
  "grade_loop qs [] totalScore = ([], totalScore)"
| "grade_loop qs (ans # rest) totalScore =
     (case grade_step qs ans totalScore of
        (ans', totalScore') \<Rightarrow>
          (case grade_loop qs rest totalScore' of
             (rest', final) \<Rightarrow> (ans' # rest', final)))"

section \<open>The store and the requests\<close>

datatype role = student_role | instructor_role | admin_role

record user_doc =
  user_id :: objectid
  name :: string
  email :: string

text \<open>\<^verbatim>\<open>req.user\<close>, the decoded token.\<close>

record req_user =
  uid :: objectid
  role :: role

text \<open>
  The collections, each in insertion order, and the source of new object identities: the
  driver never hands out an identity twice, so the next one is a counter. A query for one
  document (\<^verbatim>\<open>findById\<close>, \<^verbatim>\<open>findOne\<close>) returns the first match in that order.

  The handlers also append to the activity log and emit events to the instructors' sockets.
  Neither is read back by any handler, and neither is part of the store below; nor are the
  failures of the database itself, which every handler answers with status 500 and no change.
\<close>

record db =
  exams :: "exam_doc list"
  attempts :: "attempt_doc list"
  users :: "user_doc list"
  next_oid :: objectid

text \<open>
  A failed request is its HTTP status and its message. In the words of the specification,
  404 is NotFound, 403 is Forbidden and 400 is InvalidState.
\<close>

type_synonym error = "nat \<times> string"

definition Exam_findById :: "db \<Rightarrow> objectid \<Rightarrow> exam_doc option" where
  "Exam_findById d i = find (\<lambda>e. exam_id e = i) (exams d)"

definition ExamAttempt_findById :: "db \<Rightarrow> objectid \<Rightarrow> attempt_doc option" where
  "ExamAttempt_findById d i = find (\<lambda>a. attempt_id a = i) (attempts d)"

definition User_findById :: "db \<Rightarrow> objectid \<Rightarrow> user_doc option" where
  "User_findById d i = find (\<lambda>x. user_id x = i) (users d)"

text \<open>\<^verbatim>\<open>attempt.save()\<close> on a document that was read from the collection.\<close>

definition ExamAttempt_save :: "db \<Rightarrow> attempt_doc \<Rightarrow> db" where
  "ExamAttempt_save d a =
     d\<lparr>attempts := map (\<lambda>x. if attempt_id x = attempt_id a then a else x) (attempts d)\<rparr>"

text \<open>
  \<^verbatim>\<open>parseInt(process.env.DEFAULT_TAB_SWITCH_LIMIT) || 3\<close>; the argument is the parsed
  variable, \<open>None\<close> when it is unset or not a number.
\<close>

definition DEFAULT_TAB_SWITCH_LIMIT :: "int option \<Rightarrow> rat" where
  "DEFAULT_TAB_SWITCH_LIMIT env =
     (case env of None \<Rightarrow> 3 | Some n \<Rightarrow> if n \<noteq> 0 then of_int n else 3)"

text \<open>\<^verbatim>\<open>exam?.antiCheatSettings?.tabSwitchLimit || DEFAULT_TAB_SWITCH_LIMIT\<close>.\<close>

definition tabLimit_of :: "int option \<Rightarrow> exam_doc option \<Rightarrow> rat" where
  "tabLimit_of env e =
     (case e of
        None \<Rightarrow> DEFAULT_TAB_SWITCH_LIMIT env
      | Some x \<Rightarrow> if tabSwitchLimit x \<noteq> 0 then tabSwitchLimit x else DEFAULT_TAB_SWITCH_LIMIT env)"

subsection \<open>Start exam attempt\<close>

record sanitized_question =
  sq_id :: objectid
  sq_type :: qtype
  sq_questionText :: string
  sq_options :: "string list"
  sq_marks :: rat

type_synonym sanitized_exam = "sanitized_question exam_rec"

definition sanitize_question :: "question_doc \<Rightarrow> sanitized_question" where
  "sanitize_question q =
     \<lparr>sq_id = q_id q, sq_type = q_type q, sq_questionText = questionText q,
      sq_options = options q, sq_marks = marks q\<rparr>"

definition sanitizedExam :: "exam_doc \<Rightarrow> sanitized_exam" where
  "sanitizedExam e =
     \<lparr>exam_id = exam_id e, title = title e, subject = subject e, instructor = instructor e,
      duration = duration e, exam_totalMarks = exam_totalMarks e, passingMarks = passingMarks e,
      startTime = startTime e, endTime = endTime e,
      questions = map sanitize_question (questions e),
      tabSwitchLimit = tabSwitchLimit e, isPublished = isPublished e,
      allowMultipleAttempts = allowMultipleAttempts e\<rparr>"

definition new_attempt :: "objectid \<Rightarrow> exam_doc \<Rightarrow> objectid \<Rightarrow> int \<Rightarrow> attempt_doc" where
  "new_attempt i e u now =
     \<lparr>attempt_id = i, exam = exam_id e, student = u, startedAt = now, submittedAt = None,
      timeSpent = None, answers = [], score = 0, totalMarks = exam_totalMarks e,
      percentage = 0, passed = False, violations = [], tabSwitches = 0,
      webcamSnapshots = [], status = in_progress, flagged = False, flagReason = None\<rparr>"

text \<open>
  \<^verbatim>\<open>POST /api/exams/:id/start\<close>. A success carries the HTTP status (200 for the resumed
  attempt, 201 for a new one), the attempt and the sanitized exam.
\<close>

definition start_exam ::
  "db \<Rightarrow> req_user \<Rightarrow> objectid \<Rightarrow> int \<Rightarrow> error + (nat \<times> attempt_doc \<times> sanitized_exam) \<times> db" where
  "start_exam d u eid now =
     (if role u \<noteq> student_role then Inl (403, ''Access denied. Insufficient role.'')
      else case Exam_findById d eid of
        None \<Rightarrow> Inl (404, ''Exam not found'')
      | Some e \<Rightarrow>
          if \<not> isPublished e then Inl (400, ''Exam is not published'')
          else if (case startTime e of None \<Rightarrow> False | Some t \<Rightarrow> now < t)
            then Inl (400, ''Exam has not started yet'')
          else if (case endTime e of None \<Rightarrow> False | Some t \<Rightarrow> now > t)
            then Inl (400, ''Exam has ended'')
          else
            (case (if \<not> allowMultipleAttempts e
                   then find (\<lambda>a. exam a = exam_id e \<and> student a = uid u \<and> status a \<noteq> cancelled)
                          (attempts d)
                   else None) of
               Some existing \<Rightarrow>
                 if status existing = in_progress
                 then Inr ((200, existing, sanitizedExam e), d)
                 else Inl (400, ''You have already attempted this exam'')
             | None \<Rightarrow>
                 let attempt = new_attempt (next_oid d) e (uid u) now
                 in Inr ((201, attempt, sanitizedExam e),
                         d\<lparr>attempts := attempts d @ [attempt], next_oid := Suc (next_oid d)\<rparr>)))"

subsection \<open>Save answer\<close>

fun findIndex :: "('a \<Rightarrow> bool) \<Rightarrow> 'a list \<Rightarrow> nat option" where
  "findIndex P [] = None"
| "findIndex P (x # xs) = (if P x then Some 0 else map_option Suc (findIndex P xs))"

definition upsert_answer :: "answer_doc list \<Rightarrow> objectid \<Rightarrow> jsval \<Rightarrow> answer_doc list" where
  "upsert_answer as qid v =
     (case findIndex (\<lambda>a. questionId a = qid) as of
        Some existingIdx \<Rightarrow> as[existingIdx := (as ! existingIdx)\<lparr>answer := v\<rparr>]
      | None \<Rightarrow> as @ [\<lparr>questionId = qid, answer = v, isCorrect = None, marksAwarded = 0\<rparr>])"

definition save_answer ::
  "db \<Rightarrow> req_user \<Rightarrow> objectid \<Rightarrow> objectid \<Rightarrow> jsval \<Rightarrow> error + db" where
  "save_answer d u aid qid v =
     (case ExamAttempt_findById d aid of
        None \<Rightarrow> Inl (404, ''Attempt not found'')
      | Some attempt \<Rightarrow>
          if student attempt \<noteq> uid u then Inl (403, ''Not authorized'')
          else if status attempt \<noteq> in_progress then Inl (400, ''Exam already submitted'')
          else Inr (ExamAttempt_save d (attempt\<lparr>answers := upsert_answer (answers attempt) qid v\<rparr>)))"

subsection \<open>Submit exam and auto-grade\<close>

record submit_response =
  r_score :: rat
  r_totalMarks :: rat
  r_percentage :: int
  r_passed :: bool
  r_flagged :: bool

definition submit_flagReason :: "nat \<Rightarrow> nat \<Rightarrow> string" where
  "submit_flagReason n t =
     ''Exceeded violation limit: '' @ show_nat n @ '' violations, '' @ show_nat t @ '' tab switches''"

text \<open>
  The body of the handler behind its guards: the attempt as it is saved, graded against the
  exam, finalised and flag-checked.
\<close>

definition graded_attempt ::
  "int option \<Rightarrow> exam_doc \<Rightarrow> attempt_doc \<Rightarrow> bool \<Rightarrow> int \<Rightarrow> attempt_doc" where
  "graded_attempt env e attempt autoSubmit now =
     (case grade_loop (questions e) (answers attempt) 0 of
        (graded, totalScore) \<Rightarrow>
          let a1 = attempt\<lparr>answers := graded,
                     score := totalScore,
                     percentage := (if exam_totalMarks e > 0
                                    then Math_round (fmul (fdiv totalScore (exam_totalMarks e)) 100)
                                    else 0),
                     passed := (totalScore \<ge> passingMarks e),
                     submittedAt := Some now,
                     timeSpent := Some (Math_round (fdiv (of_int (now - startedAt attempt)) 1000)),
                     status := (if autoSubmit then auto_submitted else submitted)\<rparr>;
              tabLimit = tabLimit_of env (Some e)
          in if of_nat (tabSwitches a1) \<ge> tabLimit \<or> of_nat (length (violations a1)) \<ge> tabLimit
             then a1\<lparr>flagged := True,
                     flagReason := Some (submit_flagReason (length (violations a1)) (tabSwitches a1))\<rparr>
             else a1)"

definition submit_attempt ::
  "int option \<Rightarrow> db \<Rightarrow> req_user \<Rightarrow> objectid \<Rightarrow> bool \<Rightarrow> int \<Rightarrow> error + submit_response \<times> db" where
  "submit_attempt env d u aid autoSubmit now =
     (case ExamAttempt_findById d aid of
        None \<Rightarrow> Inl (404, ''Attempt not found'')
      | Some attempt \<Rightarrow>
          if student attempt \<noteq> uid u then Inl (403, ''Not authorized'')
          else if status attempt \<noteq> in_progress then Inl (400, ''Already submitted'')
          else
           (case Exam_findById d (exam attempt) of
              None \<Rightarrow> Inl (404, ''Exam not found'')
            | Some e \<Rightarrow>
                let a2 = graded_attempt env e attempt autoSubmit now
                in Inr (\<lparr>r_score = score a2, r_totalMarks = exam_totalMarks e,
                         r_percentage = percentage a2, r_passed = passed a2,
                         r_flagged = flagged a2\<rparr>,
                        ExamAttempt_save d a2)))"

subsection \<open>Log violation\<close>

record violation_response =
  r_totalViolations :: nat
  r_tabSwitches :: nat
  r_vflagged :: bool

definition violation_flagReason :: "nat \<Rightarrow> string" where
  "violation_flagReason n = ''Auto-flagged: '' @ show_nat n @ '' violations''"

text \<open>
  \<^verbatim>\<open>POST /api/attempts/:id/violation\<close>. The route checks no owner. Behind the guards the
  handler appends the violation, counts a tab switch and checks the flag threshold
  (\<open>with_violation\<close>). The schema requires the violation type: with an empty one
  \<^verbatim>\<open>attempt.save()\<close> throws and the handler answers 500 with nothing stored.
\<close>

definition with_violation ::
  "int option \<Rightarrow> exam_doc option \<Rightarrow> attempt_doc \<Rightarrow> string \<Rightarrow> string option \<Rightarrow> severity option
     \<Rightarrow> int \<Rightarrow> attempt_doc" where
  "with_violation env e attempt ty descr sev now =
     (let violation = \<lparr>v_type = ty, description = descr, v_timestamp = now,
                       severity = (case sev of None \<Rightarrow> medium | Some s \<Rightarrow> s)\<rparr>;
          a1 = attempt\<lparr>violations := violations attempt @ [violation]\<rparr>;
          a2 = (if ty = ''tab_switch'' then a1\<lparr>tabSwitches := tabSwitches a1 + 1\<rparr> else a1);
          tabLimit = tabLimit_of env e
      in if of_nat (length (violations a2)) \<ge> tabLimit * 2
         then a2\<lparr>flagged := True,
                 flagReason := Some (violation_flagReason (length (violations a2)))\<rparr>
         else a2)"

definition log_violation ::
  "int option \<Rightarrow> db \<Rightarrow> objectid \<Rightarrow> string \<Rightarrow> string option \<Rightarrow> severity option \<Rightarrow> int
     \<Rightarrow> error + violation_response \<times> db" where
  "log_violation env d aid ty descr sev now =
     (case ExamAttempt_findById d aid of
        None \<Rightarrow> Inl (404, ''Attempt not found'')
      | Some attempt \<Rightarrow>
          if status attempt \<noteq> in_progress then Inl (400, ''Exam not in progress'')
          else
            let a3 = with_violation env (Exam_findById d (exam attempt)) attempt ty descr sev now
            in if ty = [] then Inl (500, ''Error logging violation'')
               else Inr (\<lparr>r_totalViolations = length (violations a3),
                           r_tabSwitches = tabSwitches a3, r_vflagged = flagged a3\<rparr>,
                         ExamAttempt_save d a3))"

subsection \<open>Save webcam snapshot\<close>

text \<open>
  \<^verbatim>\<open>POST /api/attempts/:id/snapshot\<close>; the argument is the URL the handler computed
  from the upload, empty when the request carried no image.
\<close>

definition save_snapshot :: "db \<Rightarrow> objectid \<Rightarrow> string \<Rightarrow> int \<Rightarrow> error + string \<times> db" where
  "save_snapshot d aid snapshotUrl now =
     (case ExamAttempt_findById d aid of
        None \<Rightarrow> Inl (404, ''Attempt not found'')
      | Some attempt \<Rightarrow>
          if snapshotUrl \<noteq> []
          then Inr (snapshotUrl,
                    ExamAttempt_save d
                      (attempt\<lparr>webcamSnapshots := webcamSnapshots attempt @ [(snapshotUrl, now)]\<rparr>))
          else Inr (snapshotUrl, d))"

subsection \<open>Get attempt details\<close>

text \<open>
  The exam as \<^verbatim>\<open>populate('exam', 'title subject duration totalMarks passingMarks questions
  antiCheatSettings')\<close> selects it, and the student as \<^verbatim>\<open>populate('student', 'name email')\<close>
  does. A reference whose document is gone populates as \<^verbatim>\<open>null\<close>.
\<close>

record populated_exam =
  p_id :: objectid
  p_title :: string
  p_subject :: string
  p_duration :: rat
  p_totalMarks :: rat
  p_passingMarks :: rat
  p_questions :: "question_doc list"
  p_tabSwitchLimit :: rat

record populated_student =
  p_student_id :: objectid
  p_name :: string
  p_email :: string

record attempt_details =
  d_attempt :: attempt_doc
  d_exam :: "populated_exam option"
  d_student :: "populated_student option"

definition populate_exam :: "exam_doc \<Rightarrow> populated_exam" where
  "populate_exam e =
     \<lparr>p_id = exam_id e, p_title = title e, p_subject = subject e, p_duration = duration e,
      p_totalMarks = exam_totalMarks e, p_passingMarks = passingMarks e,
      p_questions = questions e, p_tabSwitchLimit = tabSwitchLimit e\<rparr>"

definition populate_student :: "user_doc \<Rightarrow> populated_student" where
  "populate_student x = \<lparr>p_student_id = user_id x, p_name = name x, p_email = email x\<rparr>"

text \<open>
  \<^verbatim>\<open>GET /api/attempts/:id\<close>. For a student caller the handler reads
  \<^verbatim>\<open>attempt.student._id\<close>; on a student reference that populated as \<^verbatim>\<open>null\<close> this
  throws and the handler answers 500.
\<close>

definition get_attempt :: "db \<Rightarrow> req_user \<Rightarrow> objectid \<Rightarrow> error + attempt_details" where
  "get_attempt d u aid =
     (case ExamAttempt_findById d aid of
        None \<Rightarrow> Inl (404, ''Attempt not found'')
      | Some attempt \<Rightarrow>
          let details = \<lparr>d_attempt = attempt,
                          d_exam = map_option populate_exam (Exam_findById d (exam attempt)),
                          d_student = map_option populate_student (User_findById d (student attempt))\<rparr>
          in if role u = student_role
             then (case d_student details of
                     None \<Rightarrow> Inl (500, ''Error fetching attempt'')
                   | Some s \<Rightarrow>
                       if p_student_id s \<noteq> uid u then Inl (403, ''Not authorized'')
                       else Inr details)
             else Inr details)"

subsection \<open>Exam routes\<close>

text \<open>
  \<^verbatim>\<open>POST /api/exams\<close>, \<^verbatim>\<open>PUT /api/exams/:id\<close> and \<^verbatim>\<open>DELETE /api/exams/:id\<close>. The
  body of a creation is the exam document as Mongoose builds it; an update is the function
  that assigns the keys of the request body; schema validation of the two is not modelled.
\<close>

definition create_exam :: "db \<Rightarrow> req_user \<Rightarrow> exam_doc \<Rightarrow> error + exam_doc \<times> db" where
  "create_exam d u body =
     (if role u \<noteq> instructor_role \<and> role u \<noteq> admin_role
      then Inl (403, ''Access denied. Insufficient role.'')
      else if title body = [] \<or> subject body = [] \<or> duration body = 0
                \<or> exam_totalMarks body = 0 \<or> passingMarks body = 0
      then Inl (400, ''Title, subject, duration, totalMarks, and passingMarks are required'')
      else if questions body = [] then Inl (400, ''At least one question is required'')
      else let e = body\<lparr>exam_id := next_oid d, instructor := uid u\<rparr>
           in Inr (e, d\<lparr>exams := exams d @ [e], next_oid := Suc (next_oid d)\<rparr>))"

definition update_exam ::
  "db \<Rightarrow> req_user \<Rightarrow> objectid \<Rightarrow> (exam_doc \<Rightarrow> exam_doc) \<Rightarrow> error + exam_doc \<times> db" where
  "update_exam d u eid updates =
     (if role u \<noteq> instructor_role \<and> role u \<noteq> admin_role
      then Inl (403, ''Access denied. Insufficient role.'')
      else case Exam_findById d eid of
        None \<Rightarrow> Inl (404, ''Exam not found'')
      | Some e \<Rightarrow>
          if instructor e \<noteq> uid u \<and> role u \<noteq> admin_role then Inl (403, ''Not authorized'')
          else let e' = (updates e)\<lparr>exam_id := exam_id e\<rparr>
               in Inr (e', d\<lparr>exams := map (\<lambda>x. if exam_id x = exam_id e then e' else x) (exams d)\<rparr>))"

definition delete_exam :: "db \<Rightarrow> req_user \<Rightarrow> objectid \<Rightarrow> error + db" where
  "delete_exam d u eid =
     (if role u \<noteq> instructor_role \<and> role u \<noteq> admin_role
      then Inl (403, ''Access denied. Insufficient role.'')
      else case Exam_findById d eid of
        None \<Rightarrow> Inl (404, ''Exam not found'')
      | Some e \<Rightarrow>
          if instructor e \<noteq> uid u \<and> role u \<noteq> admin_role then Inl (403, ''Not authorized'')
          else Inr (d\<lparr>exams := filter (\<lambda>x. exam_id x \<noteq> eid) (exams d),
                      attempts := filter (\<lambda>a. exam a \<noteq> eid) (attempts d)\<rparr>))"

subsection \<open>Requests in sequence\<close>

datatype request =
    StartExam req_user objectid int
  | SaveAnswer req_user objectid objectid jsval
  | SubmitAttempt req_user objectid bool int
  | LogViolation objectid string "string option" "severity option" int
  | SaveSnapshot objectid string int
  | GetAttempt req_user objectid
  | CreateExam req_user exam_doc
  | UpdateExam req_user objectid "exam_doc \<Rightarrow> exam_doc"
  | DeleteExam req_user objectid

text \<open>The store after a request: a request that fails leaves the store as it was.\<close>

definition after :: "(error + 'a \<times> db) \<Rightarrow> db \<Rightarrow> db" where
  "after r d = (case r of Inl _ \<Rightarrow> d | Inr (_, d') \<Rightarrow> d')"

fun handle :: "int option \<Rightarrow> db \<Rightarrow> request \<Rightarrow> db" where
  "handle env d (StartExam u eid now) = after (start_exam d u eid now) d"
| "handle env d (SaveAnswer u aid qid v) =
     (case save_answer d u aid qid v of Inl _ \<Rightarrow> d | Inr d' \<Rightarrow> d')"
| "handle env d (SubmitAttempt u aid autoSubmit now) = after (submit_attempt env d u aid autoSubmit now) d"
| "handle env d (LogViolation aid ty descr sev now) = after (log_violation env d aid ty descr sev now) d"
| "handle env d (SaveSnapshot aid url now) = after (save_snapshot d aid url now) d"
| "handle env d (GetAttempt u aid) = d"
| "handle env d (CreateExam u body) = after (create_exam d u body) d"
| "handle env d (UpdateExam u eid updates) = after (update_exam d u eid updates) d"
| "handle env d (DeleteExam u eid) =
     (case delete_exam d u eid of Inl _ \<Rightarrow> d | Inr d' \<Rightarrow> d')"

fun handle_all :: "int option \<Rightarrow> db \<Rightarrow> request list \<Rightarrow> db" where
  "handle_all env d [] = d"
| "handle_all env d (r # rs) = handle_all env (handle env d r) rs"

section \<open>Notions of the specification\<close>

text \<open>The failure signals of the specification, read off the HTTP status.\<close>

definition NotFound :: "error \<Rightarrow> bool" where
  "NotFound e = (fst e = 404)"

definition Forbidden :: "error \<Rightarrow> bool" where
  "Forbidden e = (fst e = 403)"

definition InvalidState :: "error \<Rightarrow> bool" where
  "InvalidState e = (fst e = 400)"

text \<open>
  What the grading loop does to one answer, the marks it adds to the total for it (none for
  an answer it skips), and the total after one more answer.
\<close>

definition graded :: "question_doc list \<Rightarrow> answer_doc \<Rightarrow> answer_doc" where
  "graded qs ans = fst (grade_step qs ans 0)"

definition awarded :: "question_doc list \<Rightarrow> answer_doc \<Rightarrow> rat" where
  "awarded qs ans =
     (case questions_id qs (questionId ans) of
        None \<Rightarrow> 0
      | Some q \<Rightarrow> marksAwarded (graded qs ans))"

definition score_after :: "question_doc list \<Rightarrow> rat \<Rightarrow> answer_doc \<Rightarrow> rat" where
  "score_after qs totalScore ans = snd (grade_step qs ans totalScore)"

text \<open>
  Well-formed stores: attempt identities are distinct and were all handed out already.
  The empty store is well formed and every request keeps a store so.
\<close>

definition wf_db :: "db \<Rightarrow> bool" where
  "wf_db d =
     (distinct (map attempt_id (attempts d))
      \<and> list_all (\<lambda>a. attempt_id a < next_oid d) (attempts d))"

definition empty_db :: db where
  "empty_db = \<lparr>exams = [], attempts = [], users = [], next_oid = 0\<rparr>"

text \<open>
  The invariant behind flag monotonicity, for one attempt identity: the store is well formed,
  the identity was handed out, and the attempt, while it is stored, is flagged.
\<close>

definition flag_kept :: "db \<Rightarrow> objectid \<Rightarrow> bool" where
  "flag_kept d aid =
     (wf_db d \<and> aid < next_oid d
      \<and> (case ExamAttempt_findById d aid of None \<Rightarrow> True | Some a \<Rightarrow> flagged a))"

text \<open>The terminal statuses of an attempt.\<close>

definition terminal :: "status \<Rightarrow> bool" where
  "terminal s = (s = submitted \<or> s = auto_submitted \<or> s = cancelled)"

text \<open>
  The normal form the specification compares answers in: string conversion, then
  whitespace trimming, then lowercasing. Trimming and lowercasing are written here without
  the handler's functions, on character codes: white space is one of the codes 9 to 13, 32
  and 160; trimming keeps the characters from the first to the last that is not white
  space; lowercasing adds 32 to the codes 65 to 90 and 192 to 222 other than 215.
\<close>

definition spec_white :: "char \<Rightarrow> bool" where
  "spec_white c = (let n = (of_char c :: nat) in (9 \<le> n \<and> n \<le> 13) \<or> n = 32 \<or> n = 160)"

definition spec_trim :: "string \<Rightarrow> string" where
  "spec_trim s =
     (let i = length (takeWhile spec_white s);
          j = length (takeWhile spec_white (rev s))
      in take (length s - i - j) (drop i s))"

definition spec_lower_char :: "char \<Rightarrow> char" where
  "spec_lower_char c =
     (let n = (of_char c :: nat)
      in if (65 \<le> n \<and> n \<le> 90) \<or> (192 \<le> n \<and> n \<le> 222 \<and> n \<noteq> 215)
         then char_of (n + 32) else c)"

definition spec_normalise :: "jsval \<Rightarrow> string" where
  "spec_normalise v = map spec_lower_char (spec_trim (js_String v))"

text \<open>
  The whitespace-delimited tokens of a string, in the words of the specification: the
  maximal runs of characters that are not white space.
\<close>

fun split_ws :: "string \<Rightarrow> string list" where
  "split_ws [] = [[]]"
| "split_ws (c # cs) =
     (if spec_white c then [] # split_ws cs
      else (case split_ws cs of
              [] \<Rightarrow> [[c]]
            | w # ws \<Rightarrow> (c # w) # ws))"

definition spec_tokens :: "string \<Rightarrow> string list" where
  "spec_tokens s = filter (\<lambda>w. w \<noteq> []) (split_ws s)"

text \<open>
  The short-answer rule in the words of the specification: the submission and the expected
  answer are the submitted value and the key in normal form; the answer is correct when
  the two are equal or every whitespace-delimited token of the expected answer occurs in
  the submission.
\<close>

definition spec_short_correct :: "jsval \<Rightarrow> jsval \<Rightarrow> bool" where
  "spec_short_correct a c =
     (let expected = spec_normalise c;
          submission = spec_normalise a
      in submission = expected \<or> list_all (\<lambda>t. sublist t submission) (spec_tokens expected))"

text \<open>\<^verbatim>\<open>pieces.join(' ')\<close>, the inverse of \<^verbatim>\<open>split(' ')\<close>.\<close>

fun join_space :: "string list \<Rightarrow> string" where
  "join_space [] = []"
| "join_space [w] = w"
| "join_space (w # v # ws) = w @ CHR '' '' # join_space (v # ws)"

section \<open>Example data\<close>

text \<open>
  The example of the specification: an exam of two questions, Q1 a multiple choice with
  key B for 2 marks, Q2 a true/false with key True for 3 marks, 5 marks in total, 3 to pass,
  a tab-switch limit of 3; student 7 has answered Q1 with b and Q2 with False.
\<close>

definition ex_q1 :: question_doc where
  "ex_q1 = \<lparr>q_id = 1, q_type = multiple_choice, questionText = ''Pick one'',
            options = [''A'', ''B'', ''C'', ''D''], correctAnswer = JStr ''B'', marks = 2,
            explanation = None\<rparr>"

definition ex_q2 :: question_doc where
  "ex_q2 = \<lparr>q_id = 2, q_type = true_false, questionText = ''True or false'',
            options = [], correctAnswer = JStr ''True'', marks = 3, explanation = None\<rparr>"

definition ex_exam :: exam_doc where
  "ex_exam = \<lparr>exam_id = 1, title = ''Quiz'', subject = ''Biology'', instructor = 9,
              duration = 30, exam_totalMarks = 5, passingMarks = 3, startTime = None,
              endTime = None, questions = [ex_q1, ex_q2], tabSwitchLimit = 3,
              isPublished = True, allowMultipleAttempts = False\<rparr>"

definition ex_ans1 :: answer_doc where
  "ex_ans1 = \<lparr>questionId = 1, answer = JStr ''b'', isCorrect = None, marksAwarded = 0\<rparr>"

definition ex_ans2 :: answer_doc where
  "ex_ans2 = \<lparr>questionId = 2, answer = JStr ''False'', isCorrect = None, marksAwarded = 0\<rparr>"

definition ex_attempt :: attempt_doc where
  "ex_attempt = (new_attempt 1 ex_exam 7 1000)\<lparr>answers := [ex_ans1, ex_ans2]\<rparr>"

definition ex_student :: req_user where
  "ex_student = \<lparr>uid = 7, role = student_role\<rparr>"

definition ex_other :: req_user where
  "ex_other = \<lparr>uid = 8, role = student_role\<rparr>"

definition ex_db :: db where
  "ex_db = \<lparr>exams = [ex_exam], attempts = [ex_attempt],
            users = [\<lparr>user_id = 7, name = ''Ada'', email = ''ada@example.org''\<rparr>],
            next_oid = 10\<rparr>"

text \<open>The same store with the attempt already submitted.\<close>

definition ex_db_submitted :: db where
  "ex_db_submitted = ex_db\<lparr>attempts := [ex_attempt\<lparr>status := submitted\<rparr>]\<rparr>"

text \<open>The same store with the exam's tab-switch limit set to 0.\<close>

definition ex_db_limit0 :: db where
  "ex_db_limit0 = ex_db\<lparr>exams := [ex_exam\<lparr>tabSwitchLimit := 0\<rparr>]\<rparr>"

text \<open>The same store with the exam closed at time 2000.\<close>

definition ex_db_ended :: db where
  "ex_db_ended = ex_db\<lparr>exams := [ex_exam\<lparr>endTime := Some 2000\<rparr>]\<rparr>"

text \<open>The same store with the exam's total marks set to -5.\<close>

definition ex_db_negative :: db where
  "ex_db_negative =
     ex_db\<lparr>exams := [ex_exam\<lparr>exam_totalMarks := - 5\<rparr>],
           attempts := [ex_attempt\<lparr>totalMarks := - 5\<rparr>]\<rparr>"

text \<open>
  The same store with 23 marks for Q1 and 17 for Q2, 40 marks in total: the student scores
  23 of 40.
\<close>

definition ex_db_23_of_40 :: db where
  "ex_db_23_of_40 =
     ex_db\<lparr>exams := [ex_exam\<lparr>questions := [ex_q1\<lparr>marks := 23\<rparr>, ex_q2\<lparr>marks := 17\<rparr>],
                               exam_totalMarks := 40, passingMarks := 20\<rparr>],
           attempts := [ex_attempt\<lparr>totalMarks := 40\<rparr>]\<rparr>"

text \<open>
  An exam of three multiple-choice questions worth 0.1, 0.2 and 0.3 marks (the doubles so
  written), all three answered correctly, and the store with the answers in a given order.
\<close>

definition ex_frac_exam :: exam_doc where
  "ex_frac_exam =
     ex_exam\<lparr>questions := [ex_q1\<lparr>q_id := 5, marks := fl (1 / 10)\<rparr>,
                             ex_q1\<lparr>q_id := 6, marks := fl (2 / 10)\<rparr>,
                             ex_q1\<lparr>q_id := 7, marks := fl (3 / 10)\<rparr>]\<rparr>"

definition ex_frac_ans :: "objectid \<Rightarrow> answer_doc" where
  "ex_frac_ans i = \<lparr>questionId = i, answer = JStr ''B'', isCorrect = None, marksAwarded = 0\<rparr>"

definition ex_frac_db :: "answer_doc list \<Rightarrow> db" where
  "ex_frac_db as = ex_db\<lparr>exams := [ex_frac_exam], attempts := [ex_attempt\<lparr>answers := as\<rparr>]\<rparr>"

text \<open>
  A short-answer exam of 6 marks: Q3 has the key of the specification's example, with a
  capital letter and a space at its end; the key of Q4 holds a TAB between its two words;
  the key of Q8 is the string \<^verbatim>\<open>0\<close>. The student answers Q3 as in the example, in other
  case and between white space, Q4 with the two words in the other order, and Q8 with the
  number 0.
\<close>

definition ex_q3 :: question_doc where
  "ex_q3 = \<lparr>q_id = 3, q_type = short_answer, questionText = ''Explain'', options = [],
            correctAnswer = JStr ''Photosynthesis light energy '', marks = 4,
            explanation = None\<rparr>"

definition ex_q4 :: question_doc where
  "ex_q4 = \<lparr>q_id = 4, q_type = short_answer, questionText = ''Name both'', options = [],
            correctAnswer = JStr (''light'' @ [CHR 0x09] @ ''energy''), marks = 1,
            explanation = None\<rparr>"

definition ex_q8 :: question_doc where
  "ex_q8 = \<lparr>q_id = 8, q_type = short_answer, questionText = ''How many'', options = [],
            correctAnswer = JStr ''0'', marks = 1, explanation = None\<rparr>"

definition ex_ans3 :: answer_doc where
  "ex_ans3 = \<lparr>questionId = 3,
              answer = JStr (CHR 0x0A # '' Plants use LIGHT energy and photosynthesis to grow''
                             @ [CHR 0xA0]),
              isCorrect = None, marksAwarded = 0\<rparr>"

definition ex_ans4 :: answer_doc where
  "ex_ans4 = \<lparr>questionId = 4, answer = JStr ''energy light'', isCorrect = None,
              marksAwarded = 0\<rparr>"

definition ex_ans8 :: answer_doc where
  "ex_ans8 = \<lparr>questionId = 8, answer = JInt 0, isCorrect = None, marksAwarded = 0\<rparr>"

definition ex_short_exam :: exam_doc where
  "ex_short_exam = ex_exam\<lparr>questions := [ex_q3, ex_q4, ex_q8], exam_totalMarks := 6\<rparr>"

definition ex_short_attempt :: attempt_doc where
  "ex_short_attempt = ex_attempt\<lparr>answers := [ex_ans3, ex_ans4, ex_ans8], totalMarks := 6\<rparr>"

definition ex_short_db :: db where
  "ex_short_db =
     \<lparr>exams = [ex_short_exam], attempts = [ex_short_attempt], users = [], next_oid = 10\<rparr>"

text \<open>
  A choice exam of 8 marks. Q1 and Q2 are those of the first example; the key of Q5 is the
  number -7, the key of Q6 is the word CAFE with its last letter U+00C9, the key of
  Q7 is \<^verbatim>\<open>a b\<close>. The student answers Q1 with \<^verbatim>\<open>b\<close> between a no-break space, a space and
  a TAB, Q2 with the boolean \<^verbatim>\<open>true\<close>, Q5 with the string \<^verbatim>\<open>-7\<close>, Q6 with the word in small
  letters (U+00E9 at its end) and Q7 with \<^verbatim>\<open>ab\<close>.
\<close>

definition ex_q5 :: question_doc where
  "ex_q5 = \<lparr>q_id = 5, q_type = multiple_choice, questionText = ''Lowest'',
            options = [''-7'', ''0'', ''7''], correctAnswer = JInt (- 7), marks = 1,
            explanation = None\<rparr>"

definition ex_q6 :: question_doc where
  "ex_q6 = \<lparr>q_id = 6, q_type = multiple_choice, questionText = ''Where'',
            options = [], correctAnswer = JStr (''CAF'' @ [CHR 0xC9]), marks = 1,
            explanation = None\<rparr>"

definition ex_q7 :: question_doc where
  "ex_q7 = \<lparr>q_id = 7, q_type = true_false, questionText = ''Which'',
            options = [], correctAnswer = JStr ''a b'', marks = 1, explanation = None\<rparr>"

definition ex_choice_answers :: "answer_doc list" where
  "ex_choice_answers =
     [\<lparr>questionId = 1, answer = JStr (CHR 0xA0 # '' b'' @ [CHR 0x09]), isCorrect = None,
        marksAwarded = 0\<rparr>,
      \<lparr>questionId = 2, answer = JBool True, isCorrect = None, marksAwarded = 0\<rparr>,
      \<lparr>questionId = 5, answer = JStr ''-7'', isCorrect = None, marksAwarded = 0\<rparr>,
      \<lparr>questionId = 6, answer = JStr (''caf'' @ [CHR 0xE9]), isCorrect = None,
        marksAwarded = 0\<rparr>,
      \<lparr>questionId = 7, answer = JStr ''ab'', isCorrect = None, marksAwarded = 0\<rparr>]"

definition ex_choice_exam :: exam_doc where
  "ex_choice_exam =
     ex_exam\<lparr>questions := [ex_q1, ex_q2, ex_q5, ex_q6, ex_q7], exam_totalMarks := 8\<rparr>"

definition ex_choice_attempt :: attempt_doc where
  "ex_choice_attempt = ex_attempt\<lparr>answers := ex_choice_answers, totalMarks := 8\<rparr>"

definition ex_choice_db :: db where
  "ex_choice_db = ex_db\<lparr>exams := [ex_choice_exam], attempts := [ex_choice_attempt]\<rparr>"

text \<open>A violation record, and attempts that hold some already.\<close>

definition ex_violation :: violation_doc where
  "ex_violation = \<lparr>v_type = ''tab_switch'', description = None, v_timestamp = 1500,
                   severity = medium\<rparr>"

definition ex_db_violations :: "nat \<Rightarrow> db" where
  "ex_db_violations n =
     ex_db\<lparr>attempts := [ex_attempt\<lparr>violations := replicate n ex_violation, tabSwitches := n\<rparr>]\<rparr>"

definition ex_db_flagged :: db where
  "ex_db_flagged =
     ex_db\<lparr>attempts := [ex_attempt\<lparr>flagged := True, flagReason := Some (violation_flagReason 6)\<rparr>]\<rparr>"

section \<open>Strings\<close>

text \<open>
  The handler's character functions agree with the character codes of the specification,
  on each of the 256 characters.
\<close>

lemma char_table_spec:
  "\<forall>c \<in> set (map char_of [0..<256::nat]).
     toLowerCase_char c = spec_lower_char c \<and> is_ws c = spec_white c"
  by code_simp

lemma char_enum: "c \<in> set (map char_of [0..<256::nat])"
proof -
  have "of_char c < (256::nat)"
    by simp
  then have "char_of (of_char c :: nat) \<in> char_of ` {0..<256::nat}"
    by (intro imageI) simp
  then show ?thesis
    by simp
qed

lemma toLowerCase_char_spec: "toLowerCase_char c = spec_lower_char c"
  using char_table_spec char_enum by blast

lemma is_ws_spec: "is_ws c = spec_white c"
  using char_table_spec char_enum by blast

lemma toLowerCase_spec: "toLowerCase s = map spec_lower_char s"
  by (simp add: toLowerCase_def toLowerCase_char_spec)

text \<open>
  \<^verbatim>\<open>trim\<close> keeps the characters from the first to the last that is not white space.
\<close>

lemma rev_dropWhile_rev:
  "rev (dropWhile P (rev t)) = take (length t - length (takeWhile P (rev t))) t"
proof -
  have "rev t = takeWhile P (rev t) @ dropWhile P (rev t)"
    by simp
  then have "t = rev (dropWhile P (rev t)) @ rev (takeWhile P (rev t))"
    by (metis rev_append rev_rev_ident)
  then have "take (length (rev (dropWhile P (rev t)))) t = rev (dropWhile P (rev t))"
    by (metis append_eq_conv_conj)
  moreover have "length (rev (dropWhile P (rev t))) = length t - length (takeWhile P (rev t))"
    by (metis length_rev length_append add_diff_cancel_left' takeWhile_dropWhile_id add.commute)
  ultimately show ?thesis
    by simp
qed

lemma takeWhile_rev_drop:
  assumes "dropWhile P s \<noteq> []"
  shows "takeWhile P (rev (dropWhile P s)) = takeWhile P (rev s)"
proof -
  have s: "rev s = rev (dropWhile P s) @ rev (takeWhile P s)"
    by (metis rev_append takeWhile_dropWhile_id)
  obtain x where x: "x \<in> set (dropWhile P s)" "\<not> P x"
    using assms by (metis hd_dropWhile hd_in_set)
  then have "\<exists>x \<in> set (rev (dropWhile P s)). \<not> P x"
    by auto
  then show ?thesis
    by (subst s) (simp add: takeWhile_append1 split: if_splits, metis takeWhile_append1 set_rev)
qed

lemma trim_spec_trim: "trim s = spec_trim s"
proof (cases "dropWhile is_ws s = []")
  case True
  then have "length (takeWhile is_ws s) = length s"
    by (metis append_Nil2 takeWhile_dropWhile_id)
  then have "take (length s - length (takeWhile is_ws s) - length (takeWhile is_ws (rev s)))
               (drop (length (takeWhile is_ws s)) s) = []"
    by simp
  moreover have "trim s = []"
    unfolding trim_def True by simp
  moreover have "spec_white = is_ws"
    by (simp add: is_ws_spec fun_eq_iff)
  ultimately show ?thesis
    by (simp add: spec_trim_def Let_def)
next
  case False
  have w: "spec_white = is_ws"
    by (simp add: is_ws_spec fun_eq_iff)
  have d: "dropWhile is_ws s = drop (length (takeWhile is_ws s)) s"
    by (rule dropWhile_eq_drop)
  have l: "length (dropWhile is_ws s) = length s - length (takeWhile is_ws s)"
    by (subst d) simp
  show ?thesis
    unfolding trim_def spec_trim_def w Let_def rev_dropWhile_rev takeWhile_rev_drop [OF False]
    by (simp add: d [symmetric] l)
qed

lemma is_ws_toLowerCase_char: "is_ws (toLowerCase_char c) = is_ws c"
  by (simp add: is_ws_def toLowerCase_char_def upper_chars_def lower_chars_def
      split: option.splits)

lemma dropWhile_ws_toLowerCase:
  "dropWhile is_ws (toLowerCase s) = toLowerCase (dropWhile is_ws s)"
  by (induction s) (simp_all add: toLowerCase_def is_ws_toLowerCase_char)

lemma toLowerCase_rev: "toLowerCase (rev s) = rev (toLowerCase s)"
  by (simp add: toLowerCase_def rev_map)

text \<open>Lowercasing and trimming commute: the handler lowercases first, the specification trims first.\<close>

lemma trim_toLowerCase: "trim (toLowerCase s) = toLowerCase (trim s)"
  by (simp add: trim_def dropWhile_ws_toLowerCase toLowerCase_rev [symmetric])

text \<open>What the handler compares is the normal form of the specification.\<close>

lemma handler_normal_form: "trim (toLowerCase (js_String v)) = spec_normalise v"
proof -
  have "trim (toLowerCase (js_String v)) = toLowerCase (trim (js_String v))"
    by (rule trim_toLowerCase)
  also have "\<dots> = map spec_lower_char (trim (js_String v))"
    by (rule toLowerCase_spec)
  also have "\<dots> = map spec_lower_char (spec_trim (js_String v))"
    by (simp only: trim_spec_trim)
  finally show ?thesis
    by (simp only: spec_normalise_def)
qed

lemma choice_isCorrect_spec:
  "choice_isCorrect a c = (spec_normalise a = spec_normalise c)"
  by (simp add: choice_isCorrect_def handler_normal_form)

text \<open>\<open>js_includes\<close> is the contiguous-sublist relation of the library.\<close>

lemma js_includes_sublist: "js_includes s w = sublist w s"
  by (induction s) (auto simp: sublist_Cons_right)

lemma short_isCorrect_sublist:
  "short_isCorrect a c =
     (spec_normalise (js_or a (JStr [])) = spec_normalise c
      \<or> (\<forall>t \<in> set (split_space (spec_normalise c)).
            sublist t (spec_normalise (js_or a (JStr [])))))"
  by (simp add: short_isCorrect_def Let_def list_all_iff js_includes_sublist
      handler_normal_form)

text \<open>
  \<open>split_space\<close> is the splitting at every space: its pieces hold no space and joined by
  single spaces they give the string back; it is the only such list of pieces.
\<close>

lemma split_space_not_Nil: "split_space s \<noteq> []"
  by (induction s) (auto split: list.splits)

lemma split_space_no_space: "w \<in> set (split_space s) \<Longrightarrow> CHR '' '' \<notin> set w"
  by (induction s arbitrary: w) (auto split: if_splits list.splits)

lemma join_space_Cons: "ws \<noteq> [] \<Longrightarrow> join_space (w # ws) = w @ CHR '' '' # join_space ws"
  by (cases ws) simp_all

lemma join_split_space: "join_space (split_space s) = s"
proof (induction s)
  case Nil
  show ?case by simp
next
  case (Cons c cs)
  show ?case
  proof (cases "c = CHR '' ''")
    case True
    then show ?thesis
      using Cons.IH by (simp add: join_space_Cons split_space_not_Nil)
  next
    case False
    obtain w ws where ws: "split_space cs = w # ws"
      using split_space_not_Nil [of cs] by (cases "split_space cs") auto
    have "join_space ((c # w) # ws) = c # join_space (w # ws)"
      by (cases ws) simp_all
    then show ?thesis
      using False Cons.IH ws by simp
  qed
qed

section \<open>Rounding\<close>

lemma Math_round_of_int: "Math_round (of_int n) = n"
  unfolding Math_round_def by (simp add: floor_eq_iff)

lemma Math_round_numeral [simp]:
  "Math_round 0 = 0"
  "Math_round (numeral k) = numeral k"
  "Math_round (- numeral k) = - numeral k"
  using Math_round_of_int [of 0] Math_round_of_int [of "numeral k"]
    Math_round_of_int [of "- numeral k"]
  by simp_all

text \<open>
  The doubles written 0.1 and 0.3, and the sum 0.1 + 0.2 = 0.30000000000000004, which is
  not the double written 0.3.
\<close>

lemma fl_decimal_examples:
  "fl (1 / 10) = 3602879701896397 / 2 ^ 55"
  "fl (3 / 10) = 5404319552844595 / 2 ^ 54"
  "fadd (fl (1 / 10)) (fl (2 / 10)) = 5404319552844596 / 2 ^ 54"
  by code_simp+

text \<open>Integers below \<open>2^53\<close> in magnitude are doubles, and their sums are exact.\<close>

lemma bitlen_le: "n < 2 ^ k \<Longrightarrow> bitlen n \<le> k"
proof (induction n arbitrary: k rule: bitlen.induct)
  case (1 n)
  show ?case
  proof (cases "n = 0")
    case True
    then show ?thesis by (simp add: bitlen.simps)
  next
    case False
    then obtain j where k: "k = Suc j"
      using "1.prems" by (cases k) auto
    have "n div 2 < 2 ^ j"
      using "1.prems" k by auto
    then have "bitlen (n div 2) \<le> j"
      using "1.IH" False by blast
    then show ?thesis
      using False k by (simp add: bitlen.simps [of n])
  qed
qed

lemma bitlen_pos: "0 < n \<Longrightarrow> 0 < bitlen n"
  by (simp add: bitlen.simps [of n])

lemma pow2_neg: "pow2 (- int k) = 1 / 2 ^ k"
  by (simp add: pow2_def)

lemma round_half_even_of_int: "round_half_even (of_int m) = m"
  by (simp add: round_half_even_def)

lemma fl_of_nat:
  assumes "0 < m" and "m < 2 ^ 53"
  shows "fl (of_nat m) = of_nat m"
proof -
  define k where "k = 53 - bitlen m"
  have b: "bitlen m \<le> 53" "0 < bitlen m"
    using assms by (simp_all add: bitlen_le bitlen_pos)
  have ge: "(1::rat) \<le> of_nat m"
    using assms(1) by simp
  have "expo (of_nat m) = int (bitlen m) - 1"
    using ge by (simp add: expo_def)
  then have e: "expo (of_nat m) - 52 = - int k"
    using b by (simp add: k_def)
  have q: "(of_nat m :: rat) / (1 / 2 ^ k) = of_int (int (m * 2 ^ k))"
    by simp
  have "fl (of_nat m) = of_int (round_half_even (of_nat m / (1 / 2 ^ k))) * (1 / 2 ^ k)"
    using assms(1) by (simp add: fl_def Let_def e pow2_neg)
  also have "\<dots> = of_int (int (m * 2 ^ k)) * (1 / 2 ^ k)"
    unfolding q round_half_even_of_int ..
  also have "\<dots> = of_nat m"
    by simp
  finally show ?thesis .
qed

lemma fl_minus: "fl (- x) = - fl x"
  by (simp add: fl_def Let_def)

lemma fl_of_int:
  assumes "\<bar>n\<bar> < 2 ^ 53"
  shows "fl (of_int n) = of_int n"
proof -
  consider "n = 0" | "0 < n" | "n < 0" by linarith
  then show ?thesis
  proof cases
    case 1
    then show ?thesis by (simp add: fl_def)
  next
    case 2
    then have "0 < nat n" "nat n < 2 ^ 53"
      using assms by (simp_all add: nat_less_iff)
    then have "fl (of_nat (nat n)) = of_nat (nat n)"
      by (rule fl_of_nat)
    then show ?thesis
      using 2 by simp
  next
    case 3
    then have "0 < nat (- n)" "nat (- n) < 2 ^ 53"
      using assms by (simp_all add: nat_less_iff)
    then have "fl (of_nat (nat (- n))) = of_nat (nat (- n))"
      by (rule fl_of_nat)
    then have "fl (- of_int n) = - of_int n"
      using 3 by simp
    then show ?thesis
      by (simp add: fl_minus)
  qed
qed

lemma fadd_of_int:
  assumes "\<bar>a + b\<bar> < 2 ^ 53"
  shows "fadd (of_int a) (of_int b) = of_int (a + b)"
  using fl_of_int [OF assms] by (simp add: fadd_def)

text \<open>
  That \<open>fl\<close> is the rounding to the nearest double: \<open>bitlen\<close> counts binary digits,
  \<open>expo\<close> is the binary exponent, and \<open>fl x\<close> is a multiple of the unit in the last
  place of \<open>x\<close> at most half a unit away from \<open>x\<close>.
\<close>

lemma bitlen_bounds:
  "0 < n \<Longrightarrow> 2 ^ (bitlen n - 1) \<le> n \<and> n < 2 ^ bitlen n"
proof (induction n rule: bitlen.induct)
  case (1 n)
  show ?case
  proof (cases "n div 2 = 0")
    case True
    then have "n = Suc 0"
      using "1.prems" by auto
    then show ?thesis
      by (simp add: bitlen.simps [of "Suc 0"] bitlen.simps [of 0])
  next
    case False
    then have IH: "2 ^ (bitlen (n div 2) - 1) \<le> n div 2" "n div 2 < 2 ^ bitlen (n div 2)"
      using "1.IH" "1.prems" by auto
    have b: "bitlen n = Suc (bitlen (n div 2))"
      using "1.prems" by (simp add: bitlen.simps [of n])
    have p: "0 < bitlen (n div 2)"
      using False by (simp add: bitlen_pos)
    then have "(2::nat) ^ bitlen (n div 2) = 2 * 2 ^ (bitlen (n div 2) - 1)"
      by (cases "bitlen (n div 2)") simp_all
    then have "(2::nat) ^ (bitlen n - 1) \<le> 2 * (n div 2)"
      using IH(1) b by simp
    moreover have "n < 2 * 2 ^ bitlen (n div 2)"
      using IH(2) by linarith
    ultimately show ?thesis
      using b by simp
  qed
qed

text \<open>\<open>expo\<close> is the binary exponent.\<close>

lemma expo_bounds:
  assumes "0 < a"
  shows "pow2 (expo a) \<le> a" and "a < pow2 (expo a + 1)"
proof -
  have "pow2 (expo a) \<le> a \<and> a < pow2 (expo a + 1)"
  proof (cases "1 \<le> a")
    case True
    define m where "m = nat \<lfloor>a\<rfloor>"
    have m: "0 < m" "of_nat m \<le> a" "a < of_nat m + 1"
      using True by (simp_all add: m_def) linarith+
    note B = bitlen_bounds [OF m(1)]
    have bp: "0 < bitlen m"
      using m(1) by (rule bitlen_pos)
    have e: "expo a = int (bitlen m - 1)"
      using True bp by (simp add: expo_def m_def)
    have 1: "pow2 (expo a) = 2 ^ (bitlen m - 1)"
      by (simp add: e pow2_def)
    have 2: "pow2 (expo a + 1) = 2 ^ bitlen m"
      using bp by (simp add: e pow2_def nat_add_distrib)
    have "(2::rat) ^ (bitlen m - 1) \<le> of_nat m"
      using B by (metis of_nat_le_iff of_nat_numeral of_nat_power)
    moreover have "(of_nat m :: rat) + 1 \<le> 2 ^ bitlen m"
    proof -
      have "m + 1 \<le> 2 ^ bitlen m" using B by simp
      then have "(of_nat (m + 1) :: rat) \<le> of_nat (2 ^ bitlen m)"
        by (simp only: of_nat_le_iff)
      then show ?thesis by simp
    qed
    ultimately show ?thesis
      using m unfolding 1 2 by linarith
  next
    case False
    define c where "c = \<lceil>1 / a\<rceil>"
    define m where "m = nat (c - 1)"
    have y: "1 < 1 / a"
      using assms False by simp
    have c: "1 / a \<le> of_int c" "of_int c - 1 < 1 / a"
      unfolding c_def by linarith+
    have c2: "2 \<le> c"
      using y c(1) by linarith
    have m: "0 < m" "int m = c - 1"
      using c2 by (simp_all add: m_def)
    note B = bitlen_bounds [OF m(1)]
    have bp: "0 < bitlen m"
      using m(1) by (rule bitlen_pos)
    have e: "expo a = - int (bitlen m)"
      using False by (simp add: expo_def m_def c_def)
    have 1: "pow2 (expo a) = 1 / 2 ^ bitlen m"
      using bp by (simp add: e pow2_def)
    have 2: "pow2 (expo a + 1) = 1 / 2 ^ (bitlen m - 1)"
    proof (cases "bitlen m = 1")
      case True
      then show ?thesis by (simp add: e pow2_def)
    next
      case False
      then have "\<not> (0 \<le> - int (bitlen m) + 1)" using bp by simp
      moreover have "nat (int (bitlen m) - 1) = bitlen m - 1" by simp
      ultimately show ?thesis
        by (simp add: e pow2_def)
    qed
    have up: "(of_int c :: rat) \<le> 2 ^ bitlen m"
    proof -
      have "m + 1 \<le> 2 ^ bitlen m" using B by simp
      then have "int (m + 1) \<le> int (2 ^ bitlen m)"
        by (simp only: of_nat_le_iff)
      then have "c \<le> 2 ^ bitlen m"
        using m(2) by simp
      then have "(of_int c :: rat) \<le> of_int (2 ^ bitlen m)"
        by (simp only: of_int_le_iff)
      then show ?thesis by simp
    qed
    have lo: "(2::rat) ^ (bitlen m - 1) \<le> of_int c - 1"
    proof -
      have "int (2 ^ (bitlen m - 1)) \<le> int m"
        using B by (simp only: of_nat_le_iff)
      then have "2 ^ (bitlen m - 1) \<le> c - 1"
        using m(2) by simp
      then have "(of_int (2 ^ (bitlen m - 1)) :: rat) \<le> of_int (c - 1)"
        by (simp only: of_int_le_iff)
      then show ?thesis by simp
    qed
    have A: "1 / a \<le> 2 ^ bitlen m"
      using c(1) up by linarith
    have Bq: "(2::rat) ^ (bitlen m - 1) < 1 / a"
      using c(2) lo by linarith
    have "1 / 2 ^ bitlen m \<le> a"
      using A assms by (simp add: field_simps)
    moreover have "a < 1 / 2 ^ (bitlen m - 1)"
      using Bq assms by (simp add: field_simps)
    ultimately show ?thesis
      unfolding 1 2 by simp
  qed
  then show "pow2 (expo a) \<le> a" and "a < pow2 (expo a + 1)"
    by simp_all
qed

lemma pow2_pos: "0 < pow2 e"
  by (simp add: pow2_def)

lemma round_half_even_error: "\<bar>of_int (round_half_even y) - y\<bar> \<le> 1 / 2"
proof -
  define r where "r = y - of_int \<lfloor>y\<rfloor>"
  have r: "0 \<le> r" "r < 1"
    unfolding r_def by linarith+
  have "round_half_even y = \<lfloor>y\<rfloor> \<and> r \<le> 1 / 2
        \<or> round_half_even y = \<lfloor>y\<rfloor> + 1 \<and> 1 / 2 \<le> r"
    unfolding round_half_even_def Let_def r_def [symmetric] by auto
  then consider (down) "round_half_even y = \<lfloor>y\<rfloor>" "r \<le> 1 / 2"
    | (up) "round_half_even y = \<lfloor>y\<rfloor> + 1" "1 / 2 \<le> r"
    by blast
  then show ?thesis
  proof cases
    case down
    have "of_int (round_half_even y) - y = - r"
      by (simp add: down(1) r_def)
    then show ?thesis
      using r down(2) by simp
  next
    case up
    have "of_int (round_half_even y) - y = 1 - r"
      by (simp add: up(1) r_def)
    then show ?thesis
      using r up(2) by simp
  qed
qed

text \<open>
  \<open>fl x\<close> is a multiple of the unit in the last place of \<open>x\<close>, and no further from \<open>x\<close>
  than half that unit.
\<close>

lemma fl_nearest:
  assumes "x \<noteq> 0" and "u = pow2 (expo \<bar>x\<bar> - 52)"
  shows "\<exists>n. fl x = of_int n * u" and "\<bar>fl x - x\<bar> \<le> u / 2"
proof -
  let ?n = "round_half_even (\<bar>x\<bar> / u)"
  have u: "0 < u"
    unfolding assms(2) by (rule pow2_pos)
  have f: "fl x = sgn x * of_int ?n * u"
    using assms by (simp add: fl_def Let_def)
  have "fl x = of_int (sgn (if x < 0 then - 1 else 1) * ?n) * u"
    using assms(1) by (simp add: f sgn_if)
  then show "\<exists>n. fl x = of_int n * u" ..
  have "fl x - x = sgn x * u * (of_int ?n - \<bar>x\<bar> / u)"
    using u by (simp add: f field_simps sgn_if abs_if)
  then have "\<bar>fl x - x\<bar> = u * \<bar>of_int ?n - \<bar>x\<bar> / u\<bar>"
    using u assms(1) by (simp add: abs_mult sgn_if)
  also have "\<dots> \<le> u * (1 / 2)"
    using u round_half_even_error [of "\<bar>x\<bar> / u"] by (intro mult_left_mono) simp_all
  finally show "\<bar>fl x - x\<bar> \<le> u / 2"
    by simp
qed

section \<open>Lookup and save\<close>

lemma find_map_replace:
  assumes "find (\<lambda>x. f x = i) xs = Some a" and "f b = i"
  shows "find (\<lambda>x. f x = i) (map (\<lambda>x. if f x = i then b else x) xs) = Some b"
  using assms by (induction xs) (auto split: if_splits)

lemma find_map_replace_other:
  assumes "f b \<noteq> i"
  shows "find (\<lambda>x. f x = i) (map (\<lambda>x. if f x = f b then b else x) xs) = find (\<lambda>x. f x = i) xs"
  using assms by (induction xs) auto

lemma find_Some_id: "find (\<lambda>x. f x = i) xs = Some a \<Longrightarrow> f a = i"
  by (induction xs) (auto split: if_splits)

lemma findById_id: "ExamAttempt_findById d aid = Some a \<Longrightarrow> attempt_id a = aid"
  unfolding ExamAttempt_findById_def by (rule find_Some_id)

lemma findById_save:
  "ExamAttempt_findById d aid = Some a \<Longrightarrow> attempt_id b = aid \<Longrightarrow>
   ExamAttempt_findById (ExamAttempt_save d b) aid = Some b"
  by (simp add: ExamAttempt_findById_def ExamAttempt_save_def find_map_replace)

lemma findById_save_other:
  "attempt_id b \<noteq> i \<Longrightarrow>
   ExamAttempt_findById (ExamAttempt_save d b) i = ExamAttempt_findById d i"
  by (simp add: ExamAttempt_findById_def ExamAttempt_save_def find_map_replace_other)

lemma Exam_findById_save: "Exam_findById (ExamAttempt_save d b) i = Exam_findById d i"
  by (simp add: Exam_findById_def ExamAttempt_save_def)

section \<open>The grading loop\<close>

lemma score_after_eq:
  "score_after qs t ans =
     (case questions_id qs (questionId ans) of
        None \<Rightarrow> t
      | Some q \<Rightarrow> fadd t (awarded qs ans))"
proof (cases "questions_id qs (questionId ans)")
  case None
  then show ?thesis
    by (simp add: score_after_def grade_step_def)
next
  case (Some q)
  then show ?thesis
    by (cases "q_type q")
      (simp_all add: score_after_def awarded_def graded_def grade_step_def Let_def)
qed

lemma grade_step_eq:
  "grade_step qs ans t = (graded qs ans, score_after qs t ans)"
  by (simp add: graded_def score_after_def grade_step_def Let_def split: option.splits)

lemma grade_loop_eq:
  "grade_loop qs as t = (map (graded qs) as, foldl (score_after qs) t as)"
  by (induction as arbitrary: t) (simp_all add: grade_step_eq)

lemma graded_choice:
  assumes "questions_id qs (questionId ans) = Some q"
    and "q_type q = multiple_choice \<or> q_type q = true_false"
  shows "graded qs ans =
           ans\<lparr>isCorrect := Some (choice_isCorrect (answer ans) (correctAnswer q)),
               marksAwarded := (if choice_isCorrect (answer ans) (correctAnswer q) then marks q else 0)\<rparr>"
  using assms by (auto simp: graded_def grade_step_def Let_def)

lemma graded_short:
  assumes "questions_id qs (questionId ans) = Some q" and "q_type q = short_answer"
  shows "graded qs ans =
           ans\<lparr>isCorrect := Some (short_isCorrect (answer ans) (correctAnswer q)),
               marksAwarded := (if short_isCorrect (answer ans) (correctAnswer q) then marks q else 0)\<rparr>"
  using assms by (simp add: graded_def grade_step_def Let_def)

text \<open>The marks added for an answer are the marks of its question or 0.\<close>

lemma awarded_cases:
  "awarded qs ans = 0
   \<or> (\<exists>q. questions_id qs (questionId ans) = Some q \<and> awarded qs ans = marks q)"
proof (cases "questions_id qs (questionId ans)")
  case None
  then show ?thesis by (simp add: awarded_def)
next
  case (Some q)
  then show ?thesis
    by (cases "q_type q") (auto simp: awarded_def graded_choice graded_short)
qed

lemma questions_id_member: "questions_id qs i = Some q \<Longrightarrow> q \<in> set qs"
  by (auto simp: questions_id_def find_Some_iff)

section \<open>The submitted attempt\<close>

lemma graded_attempt_fields:
  "attempt_id (graded_attempt env e a autoSubmit now) = attempt_id a"
  "answers (graded_attempt env e a autoSubmit now) = map (graded (questions e)) (answers a)"
  "score (graded_attempt env e a autoSubmit now) = foldl (score_after (questions e)) 0 (answers a)"
  "violations (graded_attempt env e a autoSubmit now) = violations a"
  "tabSwitches (graded_attempt env e a autoSubmit now) = tabSwitches a"
  "status (graded_attempt env e a autoSubmit now) = (if autoSubmit then auto_submitted else submitted)"
  "student (graded_attempt env e a autoSubmit now) = student a"
  "exam (graded_attempt env e a autoSubmit now) = exam a"
  by (simp_all add: graded_attempt_def grade_loop_eq Let_def)

lemma graded_attempt_percentage:
  "percentage (graded_attempt env e a autoSubmit now) =
     (if exam_totalMarks e > 0
      then Math_round (fmul (fdiv (score (graded_attempt env e a autoSubmit now))
                               (exam_totalMarks e)) 100)
      else 0)"
  by (simp add: graded_attempt_def grade_loop_eq Let_def)

lemma graded_attempt_passed:
  "passed (graded_attempt env e a autoSubmit now) =
     (score (graded_attempt env e a autoSubmit now) \<ge> passingMarks e)"
  by (simp add: graded_attempt_def grade_loop_eq Let_def)

lemma graded_attempt_flagged:
  "flagged (graded_attempt env e a autoSubmit now) =
     (flagged a \<or> of_nat (tabSwitches a) \<ge> tabLimit_of env (Some e)
        \<or> of_nat (length (violations a)) \<ge> tabLimit_of env (Some e))"
  by (simp add: graded_attempt_def grade_loop_eq Let_def)

lemma graded_attempt_flagReason:
  "flagReason (graded_attempt env e a autoSubmit now) =
     (if of_nat (tabSwitches a) \<ge> tabLimit_of env (Some e)
         \<or> of_nat (length (violations a)) \<ge> tabLimit_of env (Some e)
      then Some (submit_flagReason (length (violations a)) (tabSwitches a))
      else flagReason a)"
  by (simp add: graded_attempt_def grade_loop_eq Let_def)

lemma submit_attempt_InrD:
  assumes "submit_attempt env d u aid autoSubmit now = Inr (r, d')"
    and "ExamAttempt_findById d aid = Some a"
    and "Exam_findById d (exam a) = Some e"
  shows "student a = uid u" and "status a = in_progress"
    and "d' = ExamAttempt_save d (graded_attempt env e a autoSubmit now)"
    and "r = \<lparr>r_score = score (graded_attempt env e a autoSubmit now),
              r_totalMarks = exam_totalMarks e,
              r_percentage = percentage (graded_attempt env e a autoSubmit now),
              r_passed = passed (graded_attempt env e a autoSubmit now),
              r_flagged = flagged (graded_attempt env e a autoSubmit now)\<rparr>"
    and "ExamAttempt_findById d' aid = Some (graded_attempt env e a autoSubmit now)"
proof -
  from assms show 1: "student a = uid u" and 2: "status a = in_progress"
    by (auto simp: submit_attempt_def split: if_splits)
  from assms 1 2 show 3: "d' = ExamAttempt_save d (graded_attempt env e a autoSubmit now)"
    by (simp add: submit_attempt_def Let_def)
  from assms 1 2 show "r = \<lparr>r_score = score (graded_attempt env e a autoSubmit now),
              r_totalMarks = exam_totalMarks e,
              r_percentage = percentage (graded_attempt env e a autoSubmit now),
              r_passed = passed (graded_attempt env e a autoSubmit now),
              r_flagged = flagged (graded_attempt env e a autoSubmit now)\<rparr>"
    by (simp add: submit_attempt_def Let_def)
  show "ExamAttempt_findById d' aid = Some (graded_attempt env e a autoSubmit now)"
    unfolding 3 using assms(2) findById_id [OF assms(2)]
    by (intro findById_save) (simp_all add: graded_attempt_fields)
qed

lemma submit_attempt_found:
  assumes "submit_attempt env d u aid autoSubmit now = Inr (r, d')"
  shows "\<exists>a e. ExamAttempt_findById d aid = Some a \<and> Exam_findById d (exam a) = Some e"
  using assms by (auto simp: submit_attempt_def split: option.splits if_splits)

section \<open>Evaluating the examples\<close>

lemmas ex_defs =
  ex_db_def ex_db_submitted_def ex_db_limit0_def ex_db_ended_def ex_db_negative_def
  ex_short_db_def ex_db_violations_def ex_db_flagged_def ex_attempt_def ex_exam_def
  ex_q1_def ex_q2_def ex_q3_def ex_q4_def ex_ans1_def ex_ans2_def ex_ans3_def ex_ans4_def
  ex_student_def ex_other_def ex_violation_def new_attempt_def
  ex_q5_def ex_q6_def ex_q7_def ex_q8_def ex_ans8_def ex_short_exam_def ex_short_attempt_def
  ex_choice_answers_def ex_choice_exam_def ex_choice_attempt_def ex_choice_db_def

lemmas op_defs =
  ExamAttempt_findById_def Exam_findById_def User_findById_def ExamAttempt_save_def
  submit_attempt_def graded_attempt_def save_answer_def log_violation_def with_violation_def
  start_exam_def get_attempt_def save_snapshot_def after_def
  grade_step_def questions_id_def choice_isCorrect_def short_isCorrect_def
  tabLimit_of_def DEFAULT_TAB_SWITCH_LIMIT_def js_or_def
  trim_def toLowerCase_def toLowerCase_char_def upper_chars_def lower_chars_def is_ws_def
  Let_def

text \<open>The arithmetic of the examples, in doubles.\<close>

lemma ex_arith:
  "fadd 0 2 = 2" "fadd 2 0 = 2" "fadd 2 3 = 5" "fadd 0 4 = 4" "fadd 4 0 = 4"
  "fadd 0 23 = 23" "fadd 23 0 = 23"
  "Math_round (fmul (fdiv 2 5) 100) = 40"
  "Math_round (fmul (fdiv 4 5) 100) = 80"
  "Math_round (fmul (fdiv 5 5) 100) = 100"
  "Math_round (fmul (fdiv 23 40) 100) = 57"
  "Math_round (fmul (fdiv 2 (- 5)) 100) = - 40"
  "Math_round (fdiv 60000 1000) = 60"
  "fadd 5 1 = 6" "fadd 6 1 = 7" "fadd 7 0 = 7"
  "Math_round (fmul (fdiv 7 8) 100) = 88"
  "Math_round (fmul (fdiv 4 6) 100) = 67"
  by code_simp+

lemma ex_found:
  "ExamAttempt_findById ex_db 1 = Some ex_attempt"
  "Exam_findById ex_db 1 = Some ex_exam"
  by (simp_all add: ex_defs op_defs ex_arith)

lemma ex_submit:
  "submit_attempt None ex_db ex_student 1 False 61000
     = Inr (\<lparr>r_score = 2, r_totalMarks = 5, r_percentage = 40, r_passed = False, r_flagged = False\<rparr>,
            handle None ex_db (SubmitAttempt ex_student 1 False 61000))"
  by (simp add: ex_defs op_defs ex_arith)

lemma ex_violations_found:
  "ExamAttempt_findById (ex_db_violations n) 1
     = Some (ex_attempt\<lparr>violations := replicate n ex_violation, tabSwitches := n\<rparr>)"
  "Exam_findById (ex_db_violations n) 1 = Some ex_exam"
  by (simp_all add: ex_defs op_defs ex_arith)

lemma show_nat_digit: "n < 10 \<Longrightarrow> show_nat n = [''0123456789'' ! n]"
  by (simp add: show_nat.simps)

section \<open>Choice questions\<close>

text \<open>
  C2. For every answer to a \<^verbatim>\<open>multiple_choice\<close> or \<^verbatim>\<open>true_false\<close> question of the exam's
  question bank, a successful submit marks the answer correct exactly when the submitted
  value and the question's key are equal after string conversion, trimming and lowercasing,
  and awards the question's full marks when correct and 0 otherwise.
\<close>

theorem choice_answer_graded:
  assumes "submit_attempt env d u aid autoSubmit now = Inr (r, d')"
    and "ExamAttempt_findById d aid = Some a"
    and "Exam_findById d (exam a) = Some e"
    and "i < length (answers a)"
    and "questions_id (questions e) (questionId (answers a ! i)) = Some q"
    and "q_type q = multiple_choice \<or> q_type q = true_false"
  shows "\<exists>a'. ExamAttempt_findById d' aid = Some a'
           \<and> length (answers a') = length (answers a)
           \<and> questionId (answers a' ! i) = questionId (answers a ! i)
           \<and> answer (answers a' ! i) = answer (answers a ! i)
           \<and> isCorrect (answers a' ! i)
               = Some (spec_normalise (answer (answers a ! i)) = spec_normalise (correctAnswer q))
           \<and> marksAwarded (answers a' ! i)
               = (if spec_normalise (answer (answers a ! i)) = spec_normalise (correctAnswer q)
                  then marks q else 0)
           \<and> marksAwarded (answers a' ! i) \<in> {0, marks q}"
proof -
  let ?a' = "graded_attempt env e a autoSubmit now"
  have found: "ExamAttempt_findById d' aid = Some ?a'"
    using assms(1-3) by (rule submit_attempt_InrD)
  have g: "graded (questions e) (answers a ! i) =
             (answers a ! i)\<lparr>isCorrect := Some (choice_isCorrect (answer (answers a ! i)) (correctAnswer q)),
                marksAwarded := (if choice_isCorrect (answer (answers a ! i)) (correctAnswer q)
                                 then marks q else 0)\<rparr>"
    using assms(5,6) by (rule graded_choice)
  show ?thesis
    using found assms(4) g
    by (simp add: graded_attempt_fields choice_isCorrect_spec)
qed

text \<open>
  The choice exam of the examples: the answers to Q1, Q2, Q5 and Q6 differ from their keys
  in white space at the ends, in case and in the kind of value only, and earn the marks of
  their questions; the answer to Q7 lacks the space inside the key and earns nothing.
\<close>

lemma ex_choice_submit:
  "submit_attempt None ex_choice_db ex_student 1 False 61000
     = Inr (\<lparr>r_score = 7, r_totalMarks = 8, r_percentage = 88, r_passed = True, r_flagged = False\<rparr>,
            handle None ex_choice_db (SubmitAttempt ex_student 1 False 61000))"
  by (simp add: ex_defs op_defs ex_arith show_nat_digit)

lemma ex_choice_found:
  "ExamAttempt_findById ex_choice_db 1 = Some ex_choice_attempt"
  "Exam_findById ex_choice_db (exam ex_choice_attempt) = Some ex_choice_exam"
  by (simp_all add: ex_defs op_defs ex_arith)

lemma ex_choice_questions:
  "questions_id (questions ex_choice_exam) (questionId (answers ex_choice_attempt ! 0)) = Some ex_q1"
  "questions_id (questions ex_choice_exam) (questionId (answers ex_choice_attempt ! 1)) = Some ex_q2"
  "questions_id (questions ex_choice_exam) (questionId (answers ex_choice_attempt ! 2)) = Some ex_q5"
  "questions_id (questions ex_choice_exam) (questionId (answers ex_choice_attempt ! 3)) = Some ex_q6"
  "questions_id (questions ex_choice_exam) (questionId (answers ex_choice_attempt ! 4)) = Some ex_q7"
  by (simp_all add: ex_defs op_defs)

lemma ex_choice_types:
  "q_type ex_q1 = multiple_choice \<or> q_type ex_q1 = true_false"
  "q_type ex_q2 = multiple_choice \<or> q_type ex_q2 = true_false"
  "q_type ex_q5 = multiple_choice \<or> q_type ex_q5 = true_false"
  "q_type ex_q6 = multiple_choice \<or> q_type ex_q6 = true_false"
  "q_type ex_q7 = multiple_choice \<or> q_type ex_q7 = true_false"
  by (simp_all add: ex_defs)

lemma ex_choice_normal_forms:
  "spec_normalise (JStr (CHR 0xA0 # '' b'' @ [CHR 0x09])) = ''b''"
  "spec_normalise (JStr ''B'') = ''b''"
  "spec_normalise (JBool True) = ''true''"
  "spec_normalise (JStr ''True'') = ''true''"
  "spec_normalise (JStr ''-7'') = ''-7''"
  "spec_normalise (JInt (- 7)) = ''-7''"
  "spec_normalise (JStr (''caf'' @ [CHR 0xE9])) = ''caf'' @ [CHR 0xE9]"
  "spec_normalise (JStr (''CAF'' @ [CHR 0xC9])) = ''caf'' @ [CHR 0xE9]"
  "spec_normalise (JStr ''ab'') = ''ab''"
  "spec_normalise (JStr ''a b'') = ''a b''"
  by code_simp+

theorem choice_answer_graded_witness:
  "submit_attempt None ex_choice_db ex_student 1 False 61000
     = Inr (\<lparr>r_score = 7, r_totalMarks = 8, r_percentage = 88, r_passed = True, r_flagged = False\<rparr>,
            handle None ex_choice_db (SubmitAttempt ex_student 1 False 61000))
   \<and> ExamAttempt_findById ex_choice_db 1 = Some ex_choice_attempt
   \<and> Exam_findById ex_choice_db (exam ex_choice_attempt) = Some ex_choice_exam
   \<and> length (answers ex_choice_attempt) = 5
   \<and> map (\<lambda>x. questions_id (questions ex_choice_exam) (questionId x)) (answers ex_choice_attempt)
       = [Some ex_q1, Some ex_q2, Some ex_q5, Some ex_q6, Some ex_q7]
   \<and> map q_type [ex_q1, ex_q2, ex_q5, ex_q6, ex_q7]
       = [multiple_choice, true_false, multiple_choice, multiple_choice, true_false]
   \<and> map (\<lambda>x. spec_normalise (answer x)) (answers ex_choice_attempt)
       = [''b'', ''true'', ''-7'', ''caf'' @ [CHR 0xE9], ''ab'']
   \<and> map (\<lambda>q. spec_normalise (correctAnswer q)) [ex_q1, ex_q2, ex_q5, ex_q6, ex_q7]
       = [''b'', ''true'', ''-7'', ''caf'' @ [CHR 0xE9], ''a b'']
   \<and> (\<exists>a'. ExamAttempt_findById (handle None ex_choice_db (SubmitAttempt ex_student 1 False 61000)) 1
              = Some a'
         \<and> length (answers a') = 5
         \<and> isCorrect (answers a' ! 0) = Some True \<and> marksAwarded (answers a' ! 0) = 2
         \<and> isCorrect (answers a' ! 1) = Some True \<and> marksAwarded (answers a' ! 1) = 3
         \<and> isCorrect (answers a' ! 2) = Some True \<and> marksAwarded (answers a' ! 2) = 1
         \<and> isCorrect (answers a' ! 3) = Some True \<and> marksAwarded (answers a' ! 3) = 1
         \<and> isCorrect (answers a' ! 4) = Some False \<and> marksAwarded (answers a' ! 4) = 0)"
proof -
  note s = ex_choice_submit
  note f = ex_choice_found
  have len: "length (answers ex_choice_attempt) = 5"
    by (simp add: ex_defs)
  have qs: "map (\<lambda>x. questions_id (questions ex_choice_exam) (questionId x)) (answers ex_choice_attempt)
              = [Some ex_q1, Some ex_q2, Some ex_q5, Some ex_q6, Some ex_q7]"
    by (simp add: ex_defs op_defs)
  have ts: "map q_type [ex_q1, ex_q2, ex_q5, ex_q6, ex_q7]
              = [multiple_choice, true_false, multiple_choice, multiple_choice, true_false]"
    by (simp add: ex_defs)
  have ans: "map answer (answers ex_choice_attempt)
               = [JStr (CHR 0xA0 # '' b'' @ [CHR 0x09]), JBool True, JStr ''-7'',
                  JStr (''caf'' @ [CHR 0xE9]), JStr ''ab'']"
    "map correctAnswer [ex_q1, ex_q2, ex_q5, ex_q6, ex_q7]
       = [JStr ''B'', JStr ''True'', JInt (- 7), JStr (''CAF'' @ [CHR 0xC9]), JStr ''a b'']"
    "map marks [ex_q1, ex_q2, ex_q5, ex_q6, ex_q7] = [2, 3, 1, 1, 1]"
    by (simp_all add: ex_defs)
  have na: "map (\<lambda>x. spec_normalise (answer x)) (answers ex_choice_attempt)
              = [''b'', ''true'', ''-7'', ''caf'' @ [CHR 0xE9], ''ab'']"
    using ans(1) ex_choice_normal_forms by (simp add: len list_eq_iff_nth_eq nth_Cons' del: append.simps)
  have nk: "map (\<lambda>q. spec_normalise (correctAnswer q)) [ex_q1, ex_q2, ex_q5, ex_q6, ex_q7]
              = [''b'', ''true'', ''-7'', ''caf'' @ [CHR 0xE9], ''a b'']"
    using ans(2) ex_choice_normal_forms by simp
  have a0: "spec_normalise (answer (answers ex_choice_attempt ! 0)) = spec_normalise (correctAnswer ex_q1)"
    and a1: "spec_normalise (answer (answers ex_choice_attempt ! 1)) = spec_normalise (correctAnswer ex_q2)"
    and a2: "spec_normalise (answer (answers ex_choice_attempt ! 2)) = spec_normalise (correctAnswer ex_q5)"
    and a3: "spec_normalise (answer (answers ex_choice_attempt ! 3)) = spec_normalise (correctAnswer ex_q6)"
    and a4: "spec_normalise (answer (answers ex_choice_attempt ! 4)) \<noteq> spec_normalise (correctAnswer ex_q7)"
    using ans ex_choice_normal_forms by (simp_all add: ex_defs)
  have m: "marks ex_q1 = 2" "marks ex_q2 = 3" "marks ex_q5 = 1" "marks ex_q6 = 1"
    by (simp_all add: ex_defs)
  have r: "\<exists>a'. ExamAttempt_findById (handle None ex_choice_db (SubmitAttempt ex_student 1 False 61000)) 1
              = Some a'
         \<and> length (answers a') = 5
         \<and> isCorrect (answers a' ! 0) = Some True \<and> marksAwarded (answers a' ! 0) = 2
         \<and> isCorrect (answers a' ! 1) = Some True \<and> marksAwarded (answers a' ! 1) = 3
         \<and> isCorrect (answers a' ! 2) = Some True \<and> marksAwarded (answers a' ! 2) = 1
         \<and> isCorrect (answers a' ! 3) = Some True \<and> marksAwarded (answers a' ! 3) = 1
         \<and> isCorrect (answers a' ! 4) = Some False \<and> marksAwarded (answers a' ! 4) = 0"
    using choice_answer_graded [OF s f, of 0, OF _ ex_choice_questions(1) ex_choice_types(1)]
      choice_answer_graded [OF s f, of 1, OF _ ex_choice_questions(2) ex_choice_types(2)]
      choice_answer_graded [OF s f, of 2, OF _ ex_choice_questions(3) ex_choice_types(3)]
      choice_answer_graded [OF s f, of 3, OF _ ex_choice_questions(4) ex_choice_types(4)]
      choice_answer_graded [OF s f, of 4, OF _ ex_choice_questions(5) ex_choice_types(5)]
      a0 a1 a2 a3 a4 m len
    by auto
  show ?thesis
    using s f len qs ts na nk r by (intro conjI)
qed

section \<open>Short answers\<close>

text \<open>
  C3, as the handler has it. For every answer to a \<^verbatim>\<open>short_answer\<close> question of the
  question bank, a successful submit marks the answer correct exactly when the submission
  equals the expected answer, or every piece of the expected answer between two space
  characters (\<^verbatim>\<open>split(' ')\<close>, not any white space) occurs as a substring of the submission;
  the question's full marks are awarded when correct, 0 otherwise. The expected answer is
  the key after string conversion, trimming and lowercasing. The submission is
  \<^verbatim>\<open>String(ans.answer || '')\<close> after trimming and lowercasing: a missing or falsy answer
  (\<^verbatim>\<open>undefined\<close>, \<^verbatim>\<open>null\<close>, \<^verbatim>\<open>false\<close>, the number 0, the empty string) is read as the empty
  string, not converted.
\<close>

theorem short_answer_graded:
  assumes "submit_attempt env d u aid autoSubmit now = Inr (r, d')"
    and "ExamAttempt_findById d aid = Some a"
    and "Exam_findById d (exam a) = Some e"
    and "i < length (answers a)"
    and "questions_id (questions e) (questionId (answers a ! i)) = Some q"
    and "q_type q = short_answer"
    and "submission = spec_normalise (js_or (answer (answers a ! i)) (JStr []))"
    and "expected = spec_normalise (correctAnswer q)"
  shows "\<exists>a'. ExamAttempt_findById d' aid = Some a'
           \<and> length (answers a') = length (answers a)
           \<and> questionId (answers a' ! i) = questionId (answers a ! i)
           \<and> answer (answers a' ! i) = answer (answers a ! i)
           \<and> isCorrect (answers a' ! i)
               = Some (submission = expected
                       \<or> (\<forall>t \<in> set (split_space expected). sublist t submission))
           \<and> marksAwarded (answers a' ! i)
               = (if submission = expected
                     \<or> (\<forall>t \<in> set (split_space expected). sublist t submission)
                  then marks q else 0)"
proof -
  let ?a' = "graded_attempt env e a autoSubmit now"
  have found: "ExamAttempt_findById d' aid = Some ?a'"
    using assms(1-3) by (rule submit_attempt_InrD)
  have g: "graded (questions e) (answers a ! i) =
             (answers a ! i)\<lparr>isCorrect := Some (short_isCorrect (answer (answers a ! i)) (correctAnswer q)),
                marksAwarded := (if short_isCorrect (answer (answers a ! i)) (correctAnswer q)
                                 then marks q else 0)\<rparr>"
    using assms(5,6) by (rule graded_short)
  have s: "short_isCorrect (answer (answers a ! i)) (correctAnswer q)
             = (submission = expected \<or> (\<forall>t \<in> set (split_space expected). sublist t submission))"
    unfolding assms(7,8) by (rule short_isCorrect_sublist)
  show ?thesis
    using found assms(4) g by (simp add: graded_attempt_fields s)
qed

lemma ex_short_submit:
  "submit_attempt None ex_short_db ex_student 1 False 61000
     = Inr (\<lparr>r_score = 4, r_totalMarks = 6, r_percentage = 67, r_passed = True, r_flagged = False\<rparr>,
            handle None ex_short_db (SubmitAttempt ex_student 1 False 61000))"
  by (simp add: ex_defs op_defs ex_arith)

lemma ex_short_found:
  "ExamAttempt_findById ex_short_db 1 = Some ex_short_attempt"
  "Exam_findById ex_short_db (exam ex_short_attempt) = Some ex_short_exam"
  by (simp_all add: ex_defs op_defs ex_arith)

lemma ex_short_questions:
  "questions_id (questions ex_short_exam) (questionId (answers ex_short_attempt ! 0)) = Some ex_q3"
  "questions_id (questions ex_short_exam) (questionId (answers ex_short_attempt ! 1)) = Some ex_q4"
  "questions_id (questions ex_short_exam) (questionId (answers ex_short_attempt ! 2)) = Some ex_q8"
  "q_type ex_q3 = short_answer" "q_type ex_q4 = short_answer" "q_type ex_q8 = short_answer"
  by (simp_all add: ex_defs op_defs)

lemma ex_short_graded:
  "map_option (\<lambda>a'. map isCorrect (answers a'))
     (ExamAttempt_findById (handle None ex_short_db (SubmitAttempt ex_student 1 False 61000)) 1)
   = Some [Some True, Some False, Some False]"
  by (simp add: ex_defs op_defs ex_arith)

lemma ex_short_normal_forms:
  "spec_normalise (JStr ''Photosynthesis light energy '') = ''photosynthesis light energy''"
  "spec_normalise (JStr (CHR 0x0A # '' Plants use LIGHT energy and photosynthesis to grow''
                         @ [CHR 0xA0]))
     = ''plants use light energy and photosynthesis to grow''"
  "spec_normalise (JStr (''light'' @ [CHR 0x09] @ ''energy'')) = ''light'' @ [CHR 0x09] @ ''energy''"
  "spec_normalise (JStr ''energy light'') = ''energy light''"
  "spec_normalise (JStr ''0'') = ''0''"
  "spec_normalise (JInt 0) = ''0''"
  "spec_normalise (JStr []) = []"
  by code_simp+

text \<open>
  The example of the specification: every word of the key occurs in the submission. The
  second answer has the words of a key that holds a TAB, the third is the number 0 for
  the key \<^verbatim>\<open>0\<close>: both are marked wrong.
\<close>

theorem short_answer_graded_witness:
  "submit_attempt None ex_short_db ex_student 1 False 61000
     = Inr (\<lparr>r_score = 4, r_totalMarks = 6, r_percentage = 67, r_passed = True, r_flagged = False\<rparr>,
            handle None ex_short_db (SubmitAttempt ex_student 1 False 61000))
   \<and> ExamAttempt_findById ex_short_db 1 = Some ex_short_attempt
   \<and> Exam_findById ex_short_db (exam ex_short_attempt) = Some ex_short_exam
   \<and> length (answers ex_short_attempt) = 3
   \<and> map (\<lambda>x. questions_id (questions ex_short_exam) (questionId x)) (answers ex_short_attempt)
       = [Some ex_q3, Some ex_q4, Some ex_q8]
   \<and> map q_type [ex_q3, ex_q4, ex_q8] = [short_answer, short_answer, short_answer]
   \<and> map (\<lambda>x. spec_normalise (js_or (answer x) (JStr []))) (answers ex_short_attempt)
       = [''plants use light energy and photosynthesis to grow'', ''energy light'', []]
   \<and> map (\<lambda>q. spec_normalise (correctAnswer q)) [ex_q3, ex_q4, ex_q8]
       = [''photosynthesis light energy'', ''light'' @ [CHR 0x09] @ ''energy'', ''0'']
   \<and> map split_space
        [''photosynthesis light energy'', ''light'' @ [CHR 0x09] @ ''energy'', ''0'']
       = [[''photosynthesis'', ''light'', ''energy''], [''light'' @ [CHR 0x09] @ ''energy''], [''0'']]
   \<and> (\<exists>a'. ExamAttempt_findById (handle None ex_short_db (SubmitAttempt ex_student 1 False 61000)) 1
              = Some a'
         \<and> length (answers a') = 3
         \<and> isCorrect (answers a' ! 0) = Some True \<and> marksAwarded (answers a' ! 0) = 4
         \<and> isCorrect (answers a' ! 1) = Some False \<and> marksAwarded (answers a' ! 1) = 0
         \<and> isCorrect (answers a' ! 2) = Some False \<and> marksAwarded (answers a' ! 2) = 0)"
proof -
  note s = ex_short_submit
  note f = ex_short_found
  note q = ex_short_questions
  have len: "length (answers ex_short_attempt) = 3"
    by (simp add: ex_defs)
  have qs: "map (\<lambda>x. questions_id (questions ex_short_exam) (questionId x)) (answers ex_short_attempt)
              = [Some ex_q3, Some ex_q4, Some ex_q8]"
    by (simp add: ex_defs op_defs)
  have ts: "map q_type [ex_q3, ex_q4, ex_q8] = [short_answer, short_answer, short_answer]"
    by (simp add: ex_defs)
  have n0: "spec_normalise (js_or (answer (answers ex_short_attempt ! 0)) (JStr []))
              = ''plants use light energy and photosynthesis to grow''"
    and n1: "spec_normalise (js_or (answer (answers ex_short_attempt ! 1)) (JStr [])) = ''energy light''"
    and n2: "spec_normalise (js_or (answer (answers ex_short_attempt ! 2)) (JStr [])) = []"
    by code_simp+
  have k0: "spec_normalise (correctAnswer ex_q3) = ''photosynthesis light energy''"
    and k1: "spec_normalise (correctAnswer ex_q4) = ''light'' @ [CHR 0x09] @ ''energy''"
    and k2: "spec_normalise (correctAnswer ex_q8) = ''0''"
    by code_simp+
  have na: "map (\<lambda>x. spec_normalise (js_or (answer x) (JStr []))) (answers ex_short_attempt)
              = [''plants use light energy and photosynthesis to grow'', ''energy light'', []]"
    by code_simp
  have nk: "map (\<lambda>q. spec_normalise (correctAnswer q)) [ex_q3, ex_q4, ex_q8]
              = [''photosynthesis light energy'', ''light'' @ [CHR 0x09] @ ''energy'', ''0'']"
    by code_simp
  have sp: "map split_space
              [''photosynthesis light energy'', ''light'' @ [CHR 0x09] @ ''energy'', ''0'']
            = [[''photosynthesis'', ''light'', ''energy''], [''light'' @ [CHR 0x09] @ ''energy''], [''0'']]"
    by simp
  have inc: "js_includes ''plants use light energy and photosynthesis to grow'' ''photosynthesis''"
     "js_includes ''plants use light energy and photosynthesis to grow'' ''light''"
     "js_includes ''plants use light energy and photosynthesis to grow'' ''energy''"
     "\<not> js_includes ''energy light'' (''light'' @ [CHR 0x09] @ ''energy'')"
     "\<not> js_includes [] ''0''"
    by simp_all
  have m: "marks ex_q3 = 4"
    by (simp add: ex_defs)
  have r0: "\<exists>a'. ExamAttempt_findById (handle None ex_short_db (SubmitAttempt ex_student 1 False 61000)) 1
                   = Some a'
              \<and> length (answers a') = 3
              \<and> isCorrect (answers a' ! 0) = Some True \<and> marksAwarded (answers a' ! 0) = 4"
    using short_answer_graded [OF s f, of 0, OF _ q(1) q(4) n0 [symmetric] k0 [symmetric]]
      len m sp inc
    by (auto simp: js_includes_sublist)
  have r1: "\<exists>a'. ExamAttempt_findById (handle None ex_short_db (SubmitAttempt ex_student 1 False 61000)) 1
                   = Some a'
              \<and> isCorrect (answers a' ! 1) = Some False \<and> marksAwarded (answers a' ! 1) = 0"
    using short_answer_graded [OF s f, of 1, OF _ q(2) q(5) n1 [symmetric] k1 [symmetric]]
      len sp inc
    by (auto simp: js_includes_sublist)
  have r2: "\<exists>a'. ExamAttempt_findById (handle None ex_short_db (SubmitAttempt ex_student 1 False 61000)) 1
                   = Some a'
              \<and> isCorrect (answers a' ! 2) = Some False \<and> marksAwarded (answers a' ! 2) = 0"
    using short_answer_graded [OF s f, of 2, OF _ q(3) q(6) n2 [symmetric] k2 [symmetric]]
      len sp inc
    by (auto simp: js_includes_sublist)
  have r: "\<exists>a'. ExamAttempt_findById (handle None ex_short_db (SubmitAttempt ex_student 1 False 61000)) 1
              = Some a'
         \<and> length (answers a') = 3
         \<and> isCorrect (answers a' ! 0) = Some True \<and> marksAwarded (answers a' ! 0) = 4
         \<and> isCorrect (answers a' ! 1) = Some False \<and> marksAwarded (answers a' ! 1) = 0
         \<and> isCorrect (answers a' ! 2) = Some False \<and> marksAwarded (answers a' ! 2) = 0"
    using r0 r1 r2 by auto
  show ?thesis
    using s f len qs ts na nk sp r by (intro conjI)
qed

text \<open>
  The claim as written fails in two ways. The key of Q4 has a TAB between its words: its
  whitespace-delimited tokens \<open>light\<close> and \<open>energy\<close> both occur in the submission
  \<open>energy light\<close>, but \<^verbatim>\<open>split(' ')\<close> leaves the key in one piece, which does not occur, and
  the handler marks the answer wrong. The answer to Q8 is the number 0 and the key is the
  string \<^verbatim>\<open>0\<close>: trimmed and lowercased the two are equal, but the handler reads the falsy 0
  as the empty string and marks the answer wrong.
\<close>

theorem short_answer_whitespace_counterexample:
  "map (\<lambda>x. questions_id (questions ex_short_exam) (questionId x)) (answers ex_short_attempt)
     = [Some ex_q3, Some ex_q4, Some ex_q8]
   \<and> q_type ex_q4 = short_answer \<and> q_type ex_q8 = short_answer
   \<and> answer (answers ex_short_attempt ! 1) = JStr ''energy light''
   \<and> correctAnswer ex_q4 = JStr (''light'' @ [CHR 0x09] @ ''energy'')
   \<and> spec_normalise (JStr ''energy light'') = ''energy light''
   \<and> spec_tokens (spec_normalise (JStr (''light'' @ [CHR 0x09] @ ''energy''))) = [''light'', ''energy'']
   \<and> spec_short_correct (JStr ''energy light'') (JStr (''light'' @ [CHR 0x09] @ ''energy''))
   \<and> answer (answers ex_short_attempt ! 2) = JInt 0
   \<and> correctAnswer ex_q8 = JStr ''0''
   \<and> spec_normalise (JInt 0) = ''0'' \<and> spec_normalise (JStr ''0'') = ''0''
   \<and> spec_short_correct (JInt 0) (JStr ''0'')
   \<and> submit_attempt None ex_short_db ex_student 1 False 61000
       = Inr (\<lparr>r_score = 4, r_totalMarks = 6, r_percentage = 67, r_passed = True, r_flagged = False\<rparr>,
              handle None ex_short_db (SubmitAttempt ex_student 1 False 61000))
   \<and> map_option (\<lambda>a'. map isCorrect (answers a'))
        (ExamAttempt_findById (handle None ex_short_db (SubmitAttempt ex_student 1 False 61000)) 1)
      = Some [Some True, Some False, Some False]"
proof -
  have qs: "map (\<lambda>x. questions_id (questions ex_short_exam) (questionId x)) (answers ex_short_attempt)
              = [Some ex_q3, Some ex_q4, Some ex_q8]"
    by (simp add: ex_defs op_defs)
  have v: "answer (answers ex_short_attempt ! 1) = JStr ''energy light''"
    "correctAnswer ex_q4 = JStr (''light'' @ [CHR 0x09] @ ''energy'')"
    "answer (answers ex_short_attempt ! 2) = JInt 0"
    "correctAnswer ex_q8 = JStr ''0''"
    by code_simp+
  have t: "spec_tokens (spec_normalise (JStr (''light'' @ [CHR 0x09] @ ''energy''))) = [''light'', ''energy'']"
    by code_simp
  have c1: "spec_short_correct (JStr ''energy light'') (JStr (''light'' @ [CHR 0x09] @ ''energy''))"
    unfolding spec_short_correct_def Let_def t
    by (simp add: ex_short_normal_forms(4) js_includes_sublist [symmetric])
  have c2: "spec_short_correct (JInt 0) (JStr ''0'')"
    by (simp add: spec_short_correct_def Let_def ex_short_normal_forms(5,6))
  show ?thesis
    using qs ex_short_questions(5,6) v ex_short_normal_forms(4,5,6) t c1 c2
      ex_short_submit ex_short_graded
    by (intro conjI)
qed

text \<open>
  On a truthy or empty-string answer and a key whose only white space is the space
  character the two readings agree: an empty piece between adjacent spaces occurs in every
  submission.
\<close>

lemma split_ws_split_space:
  "\<forall>c \<in> set s. spec_white c \<longrightarrow> c = CHR '' '' \<Longrightarrow> split_ws s = split_space s"
proof (induction s)
  case Nil
  show ?case
    by simp
next
  case (Cons c s)
  have sp: "spec_white (CHR '' '')"
    by code_simp
  have IH: "split_ws s = split_space s"
    using Cons by simp
  show ?case
  proof (cases "c = CHR '' ''")
    case True
    then show ?thesis
      using sp IH by simp
  next
    case False
    then have "\<not> spec_white c"
      using Cons.prems by auto
    then show ?thesis
      using False IH by simp
  qed
qed

lemma short_isCorrect_spec_spaces_only:
  assumes "\<forall>x \<in> set (spec_normalise c). spec_white x \<longrightarrow> x = CHR '' ''"
    and "truthy a \<or> a = JStr []"
  shows "short_isCorrect a c = spec_short_correct a c"
proof -
  have "js_or a (JStr []) = a"
    using assms(2) by (auto simp: js_or_def)
  then show ?thesis
    using split_ws_split_space [OF assms(1)]
    by (auto simp: short_isCorrect_sublist spec_short_correct_def spec_tokens_def Let_def
        list_all_iff)
qed
section \<open>The flag check at submit\<close>

lemma flagReasons_differ: "submit_flagReason n t \<noteq> violation_flagReason m"
  by (simp add: submit_flagReason_def violation_flagReason_def)

text \<open>
  C4, as the handler has it. On every successful submit the flag check runs against the
  limit \<^verbatim>\<open>exam.antiCheatSettings.tabSwitchLimit || DEFAULT_TAB_SWITCH_LIMIT\<close>, that is
  the exam's configured limit unless that is 0, and the default limit then: the attempt is
  set flagged, with the submit-time reason, exactly when its tab-switch count or its
  violation count reaches that limit. The submit-time reason differs from every reason of
  the record-violation check and replaces whatever reason the attempt carried; when the
  check does not fire, flag and reason stay as they were.
\<close>

theorem submit_flag_check:
  assumes "submit_attempt env d u aid autoSubmit now = Inr (r, d')"
    and "ExamAttempt_findById d aid = Some a"
    and "Exam_findById d (exam a) = Some e"
    and "limit = (if tabSwitchLimit e \<noteq> 0 then tabSwitchLimit e else DEFAULT_TAB_SWITCH_LIMIT env)"
    and "fires = (of_nat (tabSwitches a) \<ge> limit \<or> of_nat (length (violations a)) \<ge> limit)"
  shows "\<exists>a'. ExamAttempt_findById d' aid = Some a'
           \<and> flagged a' = (flagged a \<or> fires)
           \<and> flagReason a'
               = (if fires then Some (submit_flagReason (length (violations a)) (tabSwitches a))
                  else flagReason a)
           \<and> r_flagged r = flagged a'
           \<and> (\<forall>m. submit_flagReason (length (violations a)) (tabSwitches a)
                    \<noteq> violation_flagReason m)"
proof -
  let ?a' = "graded_attempt env e a autoSubmit now"
  have found: "ExamAttempt_findById d' aid = Some ?a'"
    using assms(1-3) by (rule submit_attempt_InrD)
  have r: "r_flagged r = flagged ?a'"
    using submit_attempt_InrD(4) [OF assms(1-3)] by simp
  have l: "tabLimit_of env (Some e) = limit"
    by (simp add: tabLimit_of_def assms(4))
  show ?thesis
    using found r
    by (simp add: graded_attempt_flagged graded_attempt_flagReason l assms(5) flagReasons_differ)
qed

text \<open>
  Three tab switches against a limit of 3: the record-violation check (threshold 6) has not
  fired, the submit check does.
\<close>

theorem submit_flag_check_witness:
  "submit_attempt None (ex_db_violations 3) ex_student 1 False 61000
     = Inr (\<lparr>r_score = 2, r_totalMarks = 5, r_percentage = 40, r_passed = False, r_flagged = True\<rparr>,
            handle None (ex_db_violations 3) (SubmitAttempt ex_student 1 False 61000))
   \<and> ExamAttempt_findById (ex_db_violations 3) 1
       = Some (ex_attempt\<lparr>violations := replicate 3 ex_violation, tabSwitches := 3\<rparr>)
   \<and> Exam_findById (ex_db_violations 3) 1 = Some ex_exam
   \<and> tabSwitchLimit ex_exam = 3
   \<and> (\<exists>a'. ExamAttempt_findById
               (handle None (ex_db_violations 3) (SubmitAttempt ex_student 1 False 61000)) 1 = Some a'
         \<and> flagged a'
         \<and> flagReason a' = Some ''Exceeded violation limit: 3 violations, 3 tab switches'')"
proof -
  let ?a = "ex_attempt\<lparr>violations := replicate 3 ex_violation, tabSwitches := 3\<rparr>"
  have 1: "submit_attempt None (ex_db_violations 3) ex_student 1 False 61000
     = Inr (\<lparr>r_score = 2, r_totalMarks = 5, r_percentage = 40, r_passed = False, r_flagged = True\<rparr>,
            handle None (ex_db_violations 3) (SubmitAttempt ex_student 1 False 61000))"
    by (simp add: ex_defs op_defs ex_arith)
  have 3: "Exam_findById (ex_db_violations 3) (exam ?a) = Some ex_exam"
    by (simp add: ex_defs op_defs ex_arith)
  have 4: "tabSwitchLimit ex_exam = 3"
    by (simp add: ex_defs)
  have 5: "submit_flagReason 3 3 = ''Exceeded violation limit: 3 violations, 3 tab switches''"
    by (simp add: submit_flagReason_def show_nat_digit)
  have 6: "tabSwitches ?a = 3" "length (violations ?a) = 3" "\<not> flagged ?a"
    by (simp_all add: ex_defs)
  show ?thesis
    using submit_flag_check [OF 1 ex_violations_found(1) 3 refl refl] 1 ex_violations_found 4 5 6
    by auto
qed

text \<open>
  The claim as written fails on an exam whose configured limit is 0: no count is below 0,
  so the claim has every submit flag the attempt, but the handler takes the default limit
  of 3 instead and leaves an attempt without violations unflagged.
\<close>

theorem submit_flag_limit0_counterexample:
  "ExamAttempt_findById ex_db_limit0 1 = Some ex_attempt
   \<and> Exam_findById ex_db_limit0 (exam ex_attempt) = Some (ex_exam\<lparr>tabSwitchLimit := 0\<rparr>)
   \<and> tabSwitchLimit (ex_exam\<lparr>tabSwitchLimit := 0\<rparr>) = 0
   \<and> (of_nat (tabSwitches ex_attempt) :: rat) \<ge> tabSwitchLimit (ex_exam\<lparr>tabSwitchLimit := 0\<rparr>)
   \<and> submit_attempt None ex_db_limit0 ex_student 1 False 61000
       = Inr (\<lparr>r_score = 2, r_totalMarks = 5, r_percentage = 40, r_passed = False, r_flagged = False\<rparr>,
              handle None ex_db_limit0 (SubmitAttempt ex_student 1 False 61000))
   \<and> map_option flagged
        (ExamAttempt_findById (handle None ex_db_limit0 (SubmitAttempt ex_student 1 False 61000)) 1)
      = Some False"
  by (simp add: ex_defs op_defs ex_arith)

section \<open>The percentage\<close>

text \<open>
  C8, as the handler has it. On every successful submit the stored percentage is
  \<^verbatim>\<open>Math.round((score / totalMarks) * 100)\<close>, the quotient and the product being rounded
  to doubles as the handler computes them, when the exam's total marks are positive, and
  0 when they are not, so that total marks of 0 give 0 and nothing is divided by 0.
\<close>

theorem submit_percentage:
  assumes "submit_attempt env d u aid autoSubmit now = Inr (r, d')"
    and "ExamAttempt_findById d aid = Some a"
    and "Exam_findById d (exam a) = Some e"
  shows "\<exists>a'. ExamAttempt_findById d' aid = Some a'
           \<and> score a' = foldl (score_after (questions e)) 0 (answers a)
           \<and> r_score r = score a' \<and> r_percentage r = percentage a'
           \<and> percentage a'
               = (if exam_totalMarks e > 0
                  then Math_round (fmul (fdiv (score a') (exam_totalMarks e)) 100)
                  else 0)
           \<and> (exam_totalMarks e = 0 \<longrightarrow> percentage a' = 0)"
proof -
  let ?a' = "graded_attempt env e a autoSubmit now"
  have found: "ExamAttempt_findById d' aid = Some ?a'"
    using assms by (rule submit_attempt_InrD)
  have r: "r_score r = score ?a'" "r_percentage r = percentage ?a'"
    using submit_attempt_InrD(4) [OF assms] by simp_all
  have p: "percentage ?a'
             = (if exam_totalMarks e > 0
                then Math_round (fmul (fdiv (score ?a') (exam_totalMarks e)) 100) else 0)"
    by (rule graded_attempt_percentage)
  show ?thesis
    using found r p by (auto simp: graded_attempt_fields)
qed

text \<open>The example of the specification: 2 marks of 5 are 40 per cent.\<close>

theorem submit_percentage_witness:
  "submit_attempt None ex_db ex_student 1 False 61000
     = Inr (\<lparr>r_score = 2, r_totalMarks = 5, r_percentage = 40, r_passed = False, r_flagged = False\<rparr>,
            handle None ex_db (SubmitAttempt ex_student 1 False 61000))
   \<and> ExamAttempt_findById ex_db 1 = Some ex_attempt
   \<and> Exam_findById ex_db (exam ex_attempt) = Some ex_exam
   \<and> exam_totalMarks ex_exam = 5
   \<and> (\<exists>a'. ExamAttempt_findById (handle None ex_db (SubmitAttempt ex_student 1 False 61000)) 1
              = Some a'
         \<and> score a' = 2 \<and> percentage a' = 40
         \<and> percentage a' = Math_round (fmul (fdiv 2 5) 100))"
proof -
  have 3: "Exam_findById ex_db (exam ex_attempt) = Some ex_exam"
    by (simp add: ex_defs op_defs)
  have 4: "exam_totalMarks ex_exam = 5"
    by (simp add: ex_defs)
  have 5: "foldl (score_after (questions ex_exam)) 0 (answers ex_attempt) = 2"
    by (simp add: ex_defs op_defs score_after_def ex_arith)
  show ?thesis
    using submit_percentage [OF ex_submit ex_found(1) 3] ex_submit ex_found(1) 3 4 5
    by (auto simp: ex_arith)
qed

text \<open>
  The claim as written fails on an exam whose total marks are negative, which the creation
  route accepts: with 2 marks scored of -5 the formula gives -40, in exact and in double
  arithmetic, and the handler stores 0. And the formula is not the exact one: with 23 marks
  scored of 40 the quotient 23 / 40 is rounded to a double below 0.575, the product to
  57.49999999999999, and the handler stores 57 where the exact value 57.5 rounds to 58.
\<close>

theorem submit_percentage_counterexample:
  "Exam_findById ex_db_negative 1 = Some (ex_exam\<lparr>exam_totalMarks := - 5\<rparr>)
   \<and> map_option (\<lambda>a'. (score a', percentage a'))
        (ExamAttempt_findById (handle None ex_db_negative (SubmitAttempt ex_student 1 False 61000)) 1)
      = Some (2, 0)
   \<and> Math_round (2 / (- 5) * 100) = - 40
   \<and> Math_round (fmul (fdiv 2 (- 5)) 100) = - 40
   \<and> map_option (\<lambda>a'. (score a', percentage a'))
        (ExamAttempt_findById (handle None ex_db_23_of_40 (SubmitAttempt ex_student 1 False 61000)) 1)
      = Some (23, 57)
   \<and> map_option exam_totalMarks (Exam_findById ex_db_23_of_40 1) = Some 40
   \<and> Math_round (23 / 40 * 100) = 58"
proof -
  have 1: "Exam_findById ex_db_negative 1 = Some (ex_exam\<lparr>exam_totalMarks := - 5\<rparr>)"
    by (simp add: ex_defs op_defs)
  have 2: "map_option (\<lambda>a'. (score a', percentage a'))
        (ExamAttempt_findById (handle None ex_db_negative (SubmitAttempt ex_student 1 False 61000)) 1)
      = Some (2, 0)"
    by (simp add: ex_defs op_defs ex_arith)
  have 3: "Math_round (2 / (- 5) * 100) = - 40" "Math_round (23 / 40 * 100) = 58"
    by code_simp+
  have 4: "map_option (\<lambda>a'. (score a', percentage a'))
        (ExamAttempt_findById (handle None ex_db_23_of_40 (SubmitAttempt ex_student 1 False 61000)) 1)
      = Some (23, 57)"
    by (simp add: ex_defs ex_db_23_of_40_def op_defs ex_arith)
  have 5: "map_option exam_totalMarks (Exam_findById ex_db_23_of_40 1) = Some 40"
    by (simp add: ex_defs ex_db_23_of_40_def op_defs)
  show ?thesis
    using 1 2 3 4 5 ex_arith(12) by simp
qed

section \<open>Grading and the order of the answers\<close>

lemma submit_attempt_InrI:
  assumes "ExamAttempt_findById d aid = Some a"
    and "student a = uid u" and "status a = in_progress"
    and "Exam_findById d (exam a) = Some e"
  shows "submit_attempt env d u aid autoSubmit now
          = Inr (\<lparr>r_score = score (graded_attempt env e a autoSubmit now),
                  r_totalMarks = exam_totalMarks e,
                  r_percentage = percentage (graded_attempt env e a autoSubmit now),
                  r_passed = passed (graded_attempt env e a autoSubmit now),
                  r_flagged = flagged (graded_attempt env e a autoSubmit now)\<rparr>,
                 ExamAttempt_save d (graded_attempt env e a autoSubmit now))"
  using assms by (simp add: submit_attempt_def Let_def)

lemma sum_list_mset_cong:
  fixes f :: "'a \<Rightarrow> rat"
  assumes "mset as' = mset as"
  shows "sum_list (map f as') = sum_list (map f as)"
proof -
  have "sum_list (map f as') = sum_mset (image_mset f (mset as'))"
    by (simp add: sum_mset_sum_list [symmetric])
  also have "\<dots> = sum_mset (image_mset f (mset as))"
    by (simp add: assms)
  also have "\<dots> = sum_list (map f as)"
    by (simp add: sum_mset_sum_list [symmetric])
  finally show ?thesis .
qed

text \<open>With integral marks of bounded sum every addition of the loop is exact.\<close>

lemma awarded_integral:
  assumes "\<forall>q \<in> set qs. marks q \<in> \<int>"
  shows "awarded qs ans \<in> \<int>"
  using awarded_cases [of qs ans] assms questions_id_member by force

lemma score_after_exact:
  assumes "t \<in> \<int>" and "awarded qs ans \<in> \<int>" and "\<bar>t\<bar> + \<bar>awarded qs ans\<bar> < 2 ^ 53"
  shows "score_after qs t ans = t + awarded qs ans"
proof (cases "questions_id qs (questionId ans)")
  case None
  then show ?thesis
    by (simp add: score_after_eq awarded_def)
next
  case (Some q)
  obtain i j where ij: "t = of_int i" "awarded qs ans = of_int j"
    using assms(1,2) by (auto elim!: Ints_cases)
  have "(of_int \<bar>i + j\<bar> :: rat) \<le> \<bar>t\<bar> + \<bar>awarded qs ans\<bar>"
    unfolding ij by simp
  also have "\<dots> < 2 ^ 53"
    by (rule assms(3))
  finally have "(of_int \<bar>i + j\<bar> :: rat) < of_int (2 ^ 53)"
    by simp
  then have "\<bar>i + j\<bar> < 2 ^ 53"
    by (simp only: of_int_less_iff)
  then have "fadd (of_int i) (of_int j) = of_int (i + j)"
    by (rule fadd_of_int)
  then show ?thesis
    using Some by (simp add: score_after_eq ij)
qed

lemma foldl_score_exact:
  assumes "\<forall>x \<in> set as. awarded qs x \<in> \<int>" and "t \<in> \<int>"
    and "\<bar>t\<bar> + sum_list (map (\<lambda>x. \<bar>awarded qs x\<bar>) as) < 2 ^ 53"
  shows "foldl (score_after qs) t as = t + sum_list (map (awarded qs) as)"
  using assms
proof (induction as arbitrary: t)
  case Nil
  show ?case by simp
next
  case (Cons x as)
  have nn: "0 \<le> sum_list (map (\<lambda>x. \<bar>awarded qs x\<bar>) as)"
    by (rule sum_list_nonneg) auto
  have s: "score_after qs t x = t + awarded qs x"
    using Cons.prems nn by (intro score_after_exact) auto
  have "foldl (score_after qs) (t + awarded qs x) as
          = t + awarded qs x + sum_list (map (awarded qs) as)"
  proof (rule Cons.IH)
    show "\<forall>x \<in> set as. awarded qs x \<in> \<int>"
      using Cons.prems(1) by simp
    show "t + awarded qs x \<in> \<int>"
      using Cons.prems(1,2) by simp
    have "\<bar>t + awarded qs x\<bar> \<le> \<bar>t\<bar> + \<bar>awarded qs x\<bar>"
      by simp
    then show "\<bar>t + awarded qs x\<bar> + sum_list (map (\<lambda>x. \<bar>awarded qs x\<bar>) as) < 2 ^ 53"
      using Cons.prems(3) by simp
  qed
  then show ?case
    by (simp add: s add.assoc)
qed

text \<open>
  C7, as the handler has it. For a fixed exam, with the answer entries of the attempt
  rearranged, a submit succeeds as before and grades every entry as before, each entry being
  graded from the exam and the entry alone, and the flag is the same. The total score is the
  same, and with it the whole response, whenever the additions of the loop are exact: when
  the marks of all questions are integers and the marks awarded add up to less than \<open>2^53\<close>
  in magnitude; it is then the sum of the marks awarded. (Otherwise the total is a sum of
  doubles taken in the order of the entries, and can depend on that order.)
\<close>

theorem grading_order_independent:
  assumes "submit_attempt env d u aid autoSubmit now = Inr (r, d')"
    and "ExamAttempt_findById d aid = Some a"
    and "Exam_findById d (exam a) = Some e"
    and "mset as' = mset (answers a)"
  shows "\<exists>r'' d'' a' a''.
           submit_attempt env (ExamAttempt_save d (a\<lparr>answers := as'\<rparr>)) u aid autoSubmit now
             = Inr (r'', d'')
           \<and> ExamAttempt_findById d' aid = Some a'
           \<and> ExamAttempt_findById d'' aid = Some a''
           \<and> answers a' = map (graded (questions e)) (answers a)
           \<and> answers a'' = map (graded (questions e)) as'
           \<and> mset (answers a'') = mset (answers a')
           \<and> r_flagged r'' = r_flagged r
           \<and> ((\<forall>q \<in> set (questions e). marks q \<in> \<int>)
                \<and> sum_list (map (\<lambda>x. \<bar>awarded (questions e) x\<bar>) (answers a)) < 2 ^ 53
               \<longrightarrow> r'' = r \<and> score a'' = score a'
                   \<and> score a' = sum_list (map (awarded (questions e)) (answers a)))"
proof -
  let ?a2 = "a\<lparr>answers := as'\<rparr>"
  let ?d2 = "ExamAttempt_save d ?a2"
  let ?g = "graded_attempt env e a autoSubmit now"
  let ?g2 = "graded_attempt env e ?a2 autoSubmit now"
  let ?r2 = "\<lparr>r_score = score ?g2, r_totalMarks = exam_totalMarks e,
              r_percentage = percentage ?g2, r_passed = passed ?g2, r_flagged = flagged ?g2\<rparr>"
  note D = submit_attempt_InrD [OF assms(1-3)]
  have id: "attempt_id ?a2 = aid"
    using findById_id [OF assms(2)] by simp
  have f2: "ExamAttempt_findById ?d2 aid = Some ?a2"
    using assms(2) id by (rule findById_save)
  have e2: "Exam_findById ?d2 (exam ?a2) = Some e"
    using assms(3) by (simp add: Exam_findById_save)
  have s2: "student ?a2 = uid u" "status ?a2 = in_progress"
    using D(1,2) by simp_all
  have sub2: "submit_attempt env ?d2 u aid autoSubmit now = Inr (?r2, ExamAttempt_save ?d2 ?g2)"
    by (rule submit_attempt_InrI [OF f2 s2 e2])
  have found2: "ExamAttempt_findById (ExamAttempt_save ?d2 ?g2) aid = Some ?g2"
    using f2 by (rule findById_save) (simp add: graded_attempt_fields id)
  have ms: "mset (answers ?g2) = mset (answers ?g)"
    using assms(4) by (simp add: graded_attempt_fields)
  have fl: "flagged ?g2 = flagged ?g"
    by (simp add: graded_attempt_flagged)
  have exact: "?r2 = r \<and> score ?g2 = score ?g
                \<and> score ?g = sum_list (map (awarded (questions e)) (answers a))"
    if int: "\<forall>q \<in> set (questions e). marks q \<in> \<int>"
      and bound: "sum_list (map (\<lambda>x. \<bar>awarded (questions e) x\<bar>) (answers a)) < 2 ^ 53"
  proof -
    have bound': "sum_list (map (\<lambda>x. \<bar>awarded (questions e) x\<bar>) as') < 2 ^ 53"
      using bound sum_list_mset_cong [OF assms(4), of "\<lambda>x. \<bar>awarded (questions e) x\<bar>"] by simp
    have 1: "score ?g = sum_list (map (awarded (questions e)) (answers a))"
      using foldl_score_exact [of "answers a" "questions e" 0] awarded_integral [OF int] bound
      by (simp add: graded_attempt_fields)
    have 2: "score ?g2 = sum_list (map (awarded (questions e)) as')"
      using foldl_score_exact [of as' "questions e" 0] awarded_integral [OF int] bound'
      by (simp add: graded_attempt_fields)
    have sc: "score ?g2 = score ?g"
      unfolding 1 2 by (rule sum_list_mset_cong [OF assms(4)])
    have pc: "percentage ?g2 = percentage ?g"
      by (simp add: graded_attempt_percentage sc)
    have pa: "passed ?g2 = passed ?g"
      by (simp add: graded_attempt_passed sc)
    show ?thesis
      unfolding D(4) using sc pc pa fl 1 by simp
  qed
  have rf: "r_flagged ?r2 = r_flagged r"
    unfolding D(4) using fl by simp
  have an: "answers ?g = map (graded (questions e)) (answers a)"
    "answers ?g2 = map (graded (questions e)) as'"
    by (simp_all add: graded_attempt_fields)
  show ?thesis
    by (intro exI [of _ ?r2] exI [of _ "ExamAttempt_save ?d2 ?g2"] exI [of _ ?g] exI [of _ ?g2]
        conjI impI sub2 D(5) found2 an ms rf)
      (use exact in blast)+
qed

text \<open>The two answers of the example in the other order: marks 2 and 3 are integers.\<close>

theorem grading_order_independent_witness:
  "submit_attempt None ex_db ex_student 1 False 61000
     = Inr (\<lparr>r_score = 2, r_totalMarks = 5, r_percentage = 40, r_passed = False, r_flagged = False\<rparr>,
            handle None ex_db (SubmitAttempt ex_student 1 False 61000))
   \<and> ExamAttempt_findById ex_db 1 = Some ex_attempt
   \<and> Exam_findById ex_db (exam ex_attempt) = Some ex_exam
   \<and> mset [ex_ans2, ex_ans1] = mset (answers ex_attempt)
   \<and> map marks (questions ex_exam) = [2, 3]
   \<and> map (awarded (questions ex_exam)) (answers ex_attempt) = [2, 0]
   \<and> (\<exists>d''. submit_attempt None (ExamAttempt_save ex_db (ex_attempt\<lparr>answers := [ex_ans2, ex_ans1]\<rparr>))
               ex_student 1 False 61000
             = Inr (\<lparr>r_score = 2, r_totalMarks = 5, r_percentage = 40, r_passed = False,
                      r_flagged = False\<rparr>, d''))"
proof -
  have 3: "Exam_findById ex_db (exam ex_attempt) = Some ex_exam"
    by (simp add: ex_defs op_defs)
  have 4: "mset [ex_ans2, ex_ans1] = mset (answers ex_attempt)"
    by (simp add: ex_attempt_def)
  have 5: "map marks (questions ex_exam) = [2, 3]"
    by (simp add: ex_defs)
  have 6: "map (awarded (questions ex_exam)) (answers ex_attempt) = [2, 0]"
    by (simp add: ex_defs op_defs awarded_def graded_def)
  have 7: "\<forall>q \<in> set (questions ex_exam). marks q \<in> \<int>"
    using 5 by (simp add: ex_defs)
  have 8: "sum_list (map (\<lambda>x. \<bar>awarded (questions ex_exam) x\<bar>) (answers ex_attempt)) < 2 ^ 53"
    using 6 by (simp add: ex_attempt_def)
  show ?thesis
    using grading_order_independent [OF ex_submit ex_found(1) 3 4] ex_submit ex_found(1) 3 4 5 6 7 8
    by auto
qed

text \<open>
  The claim as written fails on marks that are not integers. With three questions worth
  0.1, 0.2 and 0.3 marks, all answered correctly, the entries in the order of the questions
  give the score 0.1 + 0.2 + 0.3 = 0.6000000000000001, and the same entries in the opposite
  order give 0.3 + 0.2 + 0.1 = 0.6.
\<close>

theorem grading_order_fraction_counterexample:
  "mset [ex_frac_ans 7, ex_frac_ans 6, ex_frac_ans 5] = mset [ex_frac_ans 5, ex_frac_ans 6, ex_frac_ans 7]
   \<and> distinct (map questionId [ex_frac_ans 5, ex_frac_ans 6, ex_frac_ans 7])
   \<and> map_option score
        (ExamAttempt_findById
           (handle None (ex_frac_db [ex_frac_ans 5, ex_frac_ans 6, ex_frac_ans 7])
              (SubmitAttempt ex_student 1 False 61000)) 1)
      = Some (1351079888211149 / 2251799813685248)
   \<and> map_option score
        (ExamAttempt_findById
           (handle None (ex_frac_db [ex_frac_ans 7, ex_frac_ans 6, ex_frac_ans 5])
              (SubmitAttempt ex_student 1 False 61000)) 1)
      = Some (5404319552844595 / 9007199254740992)
   \<and> (1351079888211149 / 2251799813685248 :: rat) \<noteq> 5404319552844595 / 9007199254740992"
proof -
  have 1: "mset [ex_frac_ans 7, ex_frac_ans 6, ex_frac_ans 5]
             = mset [ex_frac_ans 5, ex_frac_ans 6, ex_frac_ans 7]"
    by (simp add: add.commute add.left_commute)
  have 2: "distinct (map questionId [ex_frac_ans 5, ex_frac_ans 6, ex_frac_ans 7])"
    by (simp add: ex_frac_ans_def)
  have 3: "map_option score
        (ExamAttempt_findById
           (handle None (ex_frac_db [ex_frac_ans 5, ex_frac_ans 6, ex_frac_ans 7])
              (SubmitAttempt ex_student 1 False 61000)) 1)
      = Some (1351079888211149 / 2251799813685248)"
    by code_simp
  have 4: "map_option score
        (ExamAttempt_findById
           (handle None (ex_frac_db [ex_frac_ans 7, ex_frac_ans 6, ex_frac_ans 5])
              (SubmitAttempt ex_student 1 False 61000)) 1)
      = Some (5404319552844595 / 9007199254740992)"
    by code_simp
  show ?thesis
    using 1 2 3 4 by simp
qed

section \<open>Terminal attempts\<close>

lemma terminal_not_in_progress: "terminal s \<Longrightarrow> s \<noteq> in_progress"
  by (auto simp: terminal_def)

text \<open>
  C1, as the handlers have it. For every attempt whose status is terminal, save-answer,
  log-violation and submit each fail and leave the store, and with it the attempt's answers,
  violations, score, percentage, status and flag, unchanged. Log-violation fails with 400
  (InvalidState) for every caller; save-answer and submit check the owner before the status,
  so they fail with 400 (InvalidState) for the attempt's owner and with 403 (Forbidden) for
  anyone else. In particular, after a successful submit the attempt is terminal, and a
  second submit by the same caller fails with 400 and stores nothing.
\<close>

theorem terminal_attempt_frozen:
  "(ExamAttempt_findById d aid = Some a \<and> terminal (status a) \<longrightarrow>
      save_answer d u aid qid v
        = Inl (if student a = uid u then (400, ''Exam already submitted'')
               else (403, ''Not authorized''))
      \<and> log_violation env d aid ty descr sev now = Inl (400, ''Exam not in progress'')
      \<and> submit_attempt env d u aid autoSubmit now
        = Inl (if student a = uid u then (400, ''Already submitted'')
               else (403, ''Not authorized''))
      \<and> handle env d (SaveAnswer u aid qid v) = d
      \<and> handle env d (LogViolation aid ty descr sev now) = d
      \<and> handle env d (SubmitAttempt u aid autoSubmit now) = d)
   \<and> (submit_attempt env d u aid autoSubmit now = Inr (r, d') \<longrightarrow>
        (\<exists>a'. ExamAttempt_findById d' aid = Some a' \<and> terminal (status a'))
        \<and> submit_attempt env2 d' u aid autoSubmit2 now2 = Inl (400, ''Already submitted'')
        \<and> handle env2 d' (SubmitAttempt u aid autoSubmit2 now2) = d')"
proof (intro conjI impI)
  assume h: "ExamAttempt_findById d aid = Some a \<and> terminal (status a)"
  then have np: "status a \<noteq> in_progress"
    by (simp add: terminal_not_in_progress)
  show sa: "save_answer d u aid qid v
        = Inl (if student a = uid u then (400, ''Exam already submitted'')
               else (403, ''Not authorized''))"
    using h np by (simp add: save_answer_def)
  show lv: "log_violation env d aid ty descr sev now = Inl (400, ''Exam not in progress'')"
    using h np by (simp add: log_violation_def)
  show su: "submit_attempt env d u aid autoSubmit now
        = Inl (if student a = uid u then (400, ''Already submitted'')
               else (403, ''Not authorized''))"
    using h np by (simp add: submit_attempt_def)
  show "handle env d (SaveAnswer u aid qid v) = d"
    by (simp add: sa)
  show "handle env d (LogViolation aid ty descr sev now) = d"
    by (simp add: lv after_def)
  show "handle env d (SubmitAttempt u aid autoSubmit now) = d"
    by (simp add: su after_def)
next
  assume s: "submit_attempt env d u aid autoSubmit now = Inr (r, d')"
  obtain a e where a: "ExamAttempt_findById d aid = Some a"
    and e: "Exam_findById d (exam a) = Some e"
    using submit_attempt_found [OF s] by blast
  let ?a' = "graded_attempt env e a autoSubmit now"
  note D = submit_attempt_InrD [OF s a e]
  have t: "terminal (status ?a')"
    by (simp add: graded_attempt_fields terminal_def)
  show "\<exists>a'. ExamAttempt_findById d' aid = Some a' \<and> terminal (status a')"
    using D(5) t by blast
  show 2: "submit_attempt env2 d' u aid autoSubmit2 now2 = Inl (400, ''Already submitted'')"
    using D(5) D(1) terminal_not_in_progress [OF t]
    by (simp add: submit_attempt_def graded_attempt_fields)
  show "handle env2 d' (SubmitAttempt u aid autoSubmit2 now2) = d'"
    by (simp add: 2 after_def)
qed

lemma ex_submitted_found:
  "ExamAttempt_findById ex_db_submitted 1 = Some (ex_attempt\<lparr>status := submitted\<rparr>)"
  by (simp add: ex_defs op_defs ex_arith)

text \<open>The owner of a submitted attempt saves an answer, logs a violation and submits again.\<close>

theorem terminal_attempt_frozen_witness:
  "ExamAttempt_findById ex_db_submitted 1 = Some (ex_attempt\<lparr>status := submitted\<rparr>)
   \<and> terminal (status (ex_attempt\<lparr>status := submitted\<rparr>))
   \<and> student (ex_attempt\<lparr>status := submitted\<rparr>) = uid ex_student
   \<and> save_answer ex_db_submitted ex_student 1 2 (JStr ''True'') = Inl (400, ''Exam already submitted'')
   \<and> log_violation None ex_db_submitted 1 ''tab_switch'' None None 70000
       = Inl (400, ''Exam not in progress'')
   \<and> submit_attempt None ex_db_submitted ex_student 1 False 70000 = Inl (400, ''Already submitted'')
   \<and> InvalidState (400, ''Already submitted'')
   \<and> submit_attempt None ex_db ex_student 1 False 61000
       = Inr (\<lparr>r_score = 2, r_totalMarks = 5, r_percentage = 40, r_passed = False, r_flagged = False\<rparr>,
              handle None ex_db (SubmitAttempt ex_student 1 False 61000))
   \<and> submit_attempt None (handle None ex_db (SubmitAttempt ex_student 1 False 61000))
        ex_student 1 True 70000
       = Inl (400, ''Already submitted'')"
proof -
  have t: "terminal (status (ex_attempt\<lparr>status := submitted\<rparr>))"
    by (simp add: terminal_def)
  have o: "student (ex_attempt\<lparr>status := submitted\<rparr>) = uid ex_student"
    by (simp add: ex_defs)
  have i: "InvalidState (400, ''Already submitted'')"
    by (simp add: InvalidState_def)
  show ?thesis
    using terminal_attempt_frozen [of ex_db_submitted 1 "ex_attempt\<lparr>status := submitted\<rparr>"
        ex_student 2 "JStr ''True''" None "''tab_switch''" None None 70000 False _ _ None True 70000]
      terminal_attempt_frozen [of ex_db 1 _ ex_student _ _ None _ _ _ 61000 False
        "\<lparr>r_score = 2, r_totalMarks = 5, r_percentage = 40, r_passed = False, r_flagged = False\<rparr>"
        "handle None ex_db (SubmitAttempt ex_student 1 False 61000)" None True 70000]
      ex_submitted_found ex_submit t o i
    by simp
qed

text \<open>
  The claim as written fails for a caller who is not the owner: on a submitted attempt
  save-answer and submit answer 403 (Forbidden), not 400 (InvalidState).
\<close>

theorem terminal_attempt_other_caller_counterexample:
  "ExamAttempt_findById ex_db_submitted 1 = Some (ex_attempt\<lparr>status := submitted\<rparr>)
   \<and> terminal (status (ex_attempt\<lparr>status := submitted\<rparr>))
   \<and> save_answer ex_db_submitted ex_other 1 2 (JStr ''True'') = Inl (403, ''Not authorized'')
   \<and> submit_attempt None ex_db_submitted ex_other 1 False 70000 = Inl (403, ''Not authorized'')
   \<and> \<not> InvalidState (403, ''Not authorized'')
   \<and> Forbidden (403, ''Not authorized'')"
  by (simp add: ex_defs op_defs terminal_def InvalidState_def Forbidden_def)

section \<open>Attempt details\<close>

text \<open>
  C10. Get-attempt returns the attempt with its exam populated, the questions as the exam
  stores them, each with its \<^verbatim>\<open>correctAnswer\<close> and \<^verbatim>\<open>explanation\<close>, to every caller
  the handler lets through: anyone who is not a student, and the student who owns the
  attempt (and is still a stored user), whatever the status of the attempt. Nothing filters
  the answer key.
\<close>

theorem get_attempt_answer_key:
  assumes "ExamAttempt_findById d aid = Some a"
    and "Exam_findById d (exam a) = Some e"
    and "role u = student_role \<longrightarrow> uid u = student a \<and> User_findById d (student a) \<noteq> None"
  shows "\<exists>details pe. get_attempt d u aid = Inr details
           \<and> d_attempt details = a
           \<and> d_exam details = Some pe
           \<and> p_questions pe = questions e
           \<and> map correctAnswer (p_questions pe) = map correctAnswer (questions e)
           \<and> map explanation (p_questions pe) = map explanation (questions e)"
proof -
  have "user_id s = student a" if "User_findById d (student a) = Some s" for s
    using that unfolding User_findById_def by (rule find_Some_id)
  then show ?thesis
    using assms by (auto simp: get_attempt_def Let_def populate_exam_def populate_student_def)
qed

text \<open>The student of the example reads the key of both questions while the attempt is in progress.\<close>

theorem get_attempt_answer_key_witness:
  "ExamAttempt_findById ex_db 1 = Some ex_attempt
   \<and> status ex_attempt = in_progress
   \<and> Exam_findById ex_db (exam ex_attempt) = Some ex_exam
   \<and> User_findById ex_db (student ex_attempt)
       = Some \<lparr>user_id = 7, name = ''Ada'', email = ''ada@example.org''\<rparr>
   \<and> role ex_student = student_role \<and> uid ex_student = student ex_attempt
   \<and> (\<exists>details pe. get_attempt ex_db ex_student 1 = Inr details
         \<and> d_exam details = Some pe
         \<and> map correctAnswer (p_questions pe) = [JStr ''B'', JStr ''True''])"
proof -
  have 2: "Exam_findById ex_db (exam ex_attempt) = Some ex_exam"
    by (simp add: ex_defs op_defs ex_arith)
  have 3: "User_findById ex_db (student ex_attempt)
             = Some \<lparr>user_id = 7, name = ''Ada'', email = ''ada@example.org''\<rparr>"
    by (simp add: ex_defs op_defs ex_arith)
  have 4: "role ex_student = student_role" "uid ex_student = student ex_attempt"
    "status ex_attempt = in_progress"
    by (simp_all add: ex_defs)
  have 5: "map correctAnswer (questions ex_exam) = [JStr ''B'', JStr ''True'']"
    by (simp add: ex_defs)
  show ?thesis
    using get_attempt_answer_key [OF ex_found(1) 2, of ex_student] ex_found(1) 2 3 4 5
    by auto
qed

section \<open>Logging a violation\<close>

lemma with_violation_fields:
  "attempt_id (with_violation env e a ty descr sev now) = attempt_id a"
  "violations (with_violation env e a ty descr sev now)
     = violations a @ [\<lparr>v_type = ty, description = descr, v_timestamp = now,
                         severity = (case sev of None \<Rightarrow> medium | Some s \<Rightarrow> s)\<rparr>]"
  "tabSwitches (with_violation env e a ty descr sev now)
     = (if ty = ''tab_switch'' then tabSwitches a + 1 else tabSwitches a)"
  "status (with_violation env e a ty descr sev now) = status a"
  "answers (with_violation env e a ty descr sev now) = answers a"
  "score (with_violation env e a ty descr sev now) = score a"
  by (simp_all add: with_violation_def Let_def)

lemma with_violation_flagged:
  "flagged (with_violation env e a ty descr sev now)
     = (flagged a \<or> of_nat (length (violations a) + 1) \<ge> tabLimit_of env e * 2)"
  by (simp add: with_violation_def Let_def)

lemma with_violation_flagReason:
  "flagReason (with_violation env e a ty descr sev now)
     = (if of_nat (length (violations a) + 1) \<ge> tabLimit_of env e * 2
        then Some (violation_flagReason (length (violations a) + 1))
        else flagReason a)"
  by (simp add: with_violation_def Let_def)

lemma log_violation_InrD:
  assumes "log_violation env d aid ty descr sev now = Inr (r, d')"
    and "ExamAttempt_findById d aid = Some a"
  shows "status a = in_progress" and "ty \<noteq> []"
    and "d' = ExamAttempt_save d (with_violation env (Exam_findById d (exam a)) a ty descr sev now)"
    and "r = \<lparr>r_totalViolations = length (violations a) + 1,
              r_tabSwitches = (if ty = ''tab_switch'' then tabSwitches a + 1 else tabSwitches a),
              r_vflagged = flagged (with_violation env (Exam_findById d (exam a)) a ty descr sev now)\<rparr>"
    and "ExamAttempt_findById d' aid
           = Some (with_violation env (Exam_findById d (exam a)) a ty descr sev now)"
proof -
  from assms show 1: "status a = in_progress" and 2: "ty \<noteq> []"
    by (auto simp: log_violation_def Let_def split: if_splits)
  from assms 1 2
  show 3: "d' = ExamAttempt_save d (with_violation env (Exam_findById d (exam a)) a ty descr sev now)"
    by (simp add: log_violation_def Let_def)
  from assms 1 2
  show "r = \<lparr>r_totalViolations = length (violations a) + 1,
              r_tabSwitches = (if ty = ''tab_switch'' then tabSwitches a + 1 else tabSwitches a),
              r_vflagged = flagged (with_violation env (Exam_findById d (exam a)) a ty descr sev now)\<rparr>"
    by (auto simp: log_violation_def Let_def with_violation_fields)
  show "ExamAttempt_findById d' aid
          = Some (with_violation env (Exam_findById d (exam a)) a ty descr sev now)"
    unfolding 3 using assms(2) findById_id [OF assms(2)]
    by (intro findById_save) (simp_all add: with_violation_fields)
qed

text \<open>
  C5, as the handler has it. On every successful log-violation against an attempt in progress
  the violation is appended to the ledger, the tab-switch counter goes up by one exactly when
  the type is \<^verbatim>\<open>tab_switch\<close>, and the attempt is set flagged, with the reason citing the
  violation count, exactly when the count, the new violation included, reaches twice the
  limit \<^verbatim>\<open>exam?.antiCheatSettings?.tabSwitchLimit || DEFAULT_TAB_SWITCH_LIMIT\<close>: the exam's
  configured limit unless that is 0 (or the exam is gone), and the default limit then. When
  the check does not fire, flag and reason stay as they were.
\<close>

theorem log_violation_effect:
  assumes "log_violation env d aid ty descr sev now = Inr (r, d')"
    and "ExamAttempt_findById d aid = Some a"
    and "limit = (case Exam_findById d (exam a) of
                    None \<Rightarrow> DEFAULT_TAB_SWITCH_LIMIT env
                  | Some e \<Rightarrow> if tabSwitchLimit e \<noteq> 0 then tabSwitchLimit e
                             else DEFAULT_TAB_SWITCH_LIMIT env)"
    and "fires = (of_nat (length (violations a) + 1) \<ge> limit * 2)"
  shows "\<exists>a'. ExamAttempt_findById d' aid = Some a'
           \<and> status a = in_progress \<and> status a' = in_progress
           \<and> violations a'
               = violations a @ [\<lparr>v_type = ty, description = descr, v_timestamp = now,
                                   severity = (case sev of None \<Rightarrow> medium | Some s \<Rightarrow> s)\<rparr>]
           \<and> tabSwitches a' = (if ty = ''tab_switch'' then tabSwitches a + 1 else tabSwitches a)
           \<and> flagged a' = (flagged a \<or> fires)
           \<and> flagReason a'
               = (if fires then Some (''Auto-flagged: '' @ show_nat (length (violations a')) @ '' violations'')
                  else flagReason a)
           \<and> r_totalViolations r = length (violations a')
           \<and> r_tabSwitches r = tabSwitches a'
           \<and> r_vflagged r = flagged a'"
proof -
  let ?a' = "with_violation env (Exam_findById d (exam a)) a ty descr sev now"
  note D = log_violation_InrD [OF assms(1,2)]
  have l: "tabLimit_of env (Exam_findById d (exam a)) = limit"
    by (simp add: tabLimit_of_def assms(3))
  show ?thesis
    using D(1,5)
    by (simp add: D(4) with_violation_fields with_violation_flagged with_violation_flagReason
        l assms(4) violation_flagReason_def)
qed

text \<open>
  The example of the specification: with a limit of 3 and five violations logged, the sixth
  flags the attempt.
\<close>

theorem log_violation_effect_witness:
  "log_violation None (ex_db_violations 5) 1 ''tab_switch'' None None 1600
     = Inr (\<lparr>r_totalViolations = 6, r_tabSwitches = 6, r_vflagged = True\<rparr>,
            handle None (ex_db_violations 5) (LogViolation 1 ''tab_switch'' None None 1600))
   \<and> ExamAttempt_findById (ex_db_violations 5) 1
       = Some (ex_attempt\<lparr>violations := replicate 5 ex_violation, tabSwitches := 5\<rparr>)
   \<and> Exam_findById (ex_db_violations 5) 1 = Some ex_exam
   \<and> tabSwitchLimit ex_exam = 3
   \<and> (\<exists>a'. ExamAttempt_findById
               (handle None (ex_db_violations 5) (LogViolation 1 ''tab_switch'' None None 1600)) 1
             = Some a'
         \<and> length (violations a') = 6 \<and> tabSwitches a' = 6 \<and> flagged a'
         \<and> flagReason a' = Some ''Auto-flagged: 6 violations'')"
proof -
  let ?a = "ex_attempt\<lparr>violations := replicate 5 ex_violation, tabSwitches := 5\<rparr>"
  have 1: "log_violation None (ex_db_violations 5) 1 ''tab_switch'' None None 1600
     = Inr (\<lparr>r_totalViolations = 6, r_tabSwitches = 6, r_vflagged = True\<rparr>,
            handle None (ex_db_violations 5) (LogViolation 1 ''tab_switch'' None None 1600))"
    by (simp add: ex_defs op_defs ex_arith)
  have 3: "Exam_findById (ex_db_violations 5) (exam ?a) = Some ex_exam"
    by (simp add: ex_defs op_defs ex_arith)
  have 4: "tabSwitchLimit ex_exam = 3"
    by (simp add: ex_defs)
  have 5: "show_nat 6 = ''6''"
    by (simp add: show_nat_digit)
  have 6: "tabSwitches ?a = 5" "length (violations ?a) = 5"
    by (simp_all add: ex_defs)
  show ?thesis
    using log_violation_effect [OF 1 ex_violations_found(1) refl refl] 1 ex_violations_found 3 4 5 6
    by auto
qed

text \<open>
  The claim as written fails on an exam whose configured limit is 0: twice 0 is reached by
  the first violation, so the claim has it flag the attempt, but the handler takes the
  default limit of 3 instead and does not flag before the sixth.
\<close>

theorem log_violation_limit0_counterexample:
  "ExamAttempt_findById ex_db_limit0 1 = Some ex_attempt
   \<and> Exam_findById ex_db_limit0 (exam ex_attempt) = Some (ex_exam\<lparr>tabSwitchLimit := 0\<rparr>)
   \<and> tabSwitchLimit (ex_exam\<lparr>tabSwitchLimit := 0\<rparr>) = 0
   \<and> (of_nat (length (violations ex_attempt) + 1) :: rat)
        \<ge> tabSwitchLimit (ex_exam\<lparr>tabSwitchLimit := 0\<rparr>) * 2
   \<and> log_violation None ex_db_limit0 1 ''tab_switch'' None None 1600
       = Inr (\<lparr>r_totalViolations = 1, r_tabSwitches = 1, r_vflagged = False\<rparr>,
              handle None ex_db_limit0 (LogViolation 1 ''tab_switch'' None None 1600))
   \<and> map_option flagged
        (ExamAttempt_findById
           (handle None ex_db_limit0 (LogViolation 1 ''tab_switch'' None None 1600)) 1)
      = Some False"
  by (simp add: ex_defs op_defs ex_arith)

section \<open>Resuming an attempt\<close>

text \<open>
  C6, as the handler has it. For a published exam with \<^verbatim>\<open>allowMultipleAttempts\<close> false,
  a start call by a student inside the exam's time window, where the first stored attempt of
  the (exam, student) pair that is not cancelled is in progress, returns that attempt
  (status 200) together with the sanitized exam, whose questions carry identity, type, text,
  options and marks only, and leaves the store as it was: no attempt is created.
\<close>

theorem start_resumes_attempt:
  assumes "role u = student_role"
    and "Exam_findById d eid = Some e"
    and "isPublished e"
    and "case startTime e of None \<Rightarrow> True | Some t \<Rightarrow> t \<le> now"
    and "case endTime e of None \<Rightarrow> True | Some t \<Rightarrow> now \<le> t"
    and "\<not> allowMultipleAttempts e"
    and "find (\<lambda>a. exam a = eid \<and> student a = uid u \<and> status a \<noteq> cancelled) (attempts d)
           = Some existing"
    and "status existing = in_progress"
  shows "start_exam d u eid now = Inr ((200, existing, sanitizedExam e), d)
         \<and> existing \<in> set (attempts d)
         \<and> exam existing = eid \<and> student existing = uid u
         \<and> questions (sanitizedExam e) = map sanitize_question (questions e)
         \<and> handle env d (StartExam u eid now) = d"
proof -
  have id: "exam_id e = eid"
    using assms(2) unfolding Exam_findById_def by (rule find_Some_id)
  have w: "\<not> (case startTime e of None \<Rightarrow> False | Some t \<Rightarrow> now < t)"
    "\<not> (case endTime e of None \<Rightarrow> False | Some t \<Rightarrow> now > t)"
    using assms(4,5) by (auto split: option.splits)
  have s: "start_exam d u eid now = Inr ((200, existing, sanitizedExam e), d)"
    using assms(1-3,6-8) w by (simp add: start_exam_def id)
  have m: "existing \<in> set (attempts d) \<and> exam existing = eid \<and> student existing = uid u"
    using assms(7) by (auto simp: find_Some_iff)
  show ?thesis
    using s m by (simp add: sanitizedExam_def after_def)
qed

theorem start_resumes_attempt_witness:
  "role ex_student = student_role
   \<and> Exam_findById ex_db 1 = Some ex_exam
   \<and> isPublished ex_exam
   \<and> startTime ex_exam = None \<and> endTime ex_exam = None
   \<and> \<not> allowMultipleAttempts ex_exam
   \<and> find (\<lambda>a. exam a = 1 \<and> student a = uid ex_student \<and> status a \<noteq> cancelled) (attempts ex_db)
       = Some ex_attempt
   \<and> status ex_attempt = in_progress
   \<and> start_exam ex_db ex_student 1 3000 = Inr ((200, ex_attempt, sanitizedExam ex_exam), ex_db)"
proof -
  have 1: "role ex_student = student_role" "isPublished ex_exam"
    "startTime ex_exam = None" "endTime ex_exam = None" "\<not> allowMultipleAttempts ex_exam"
    "status ex_attempt = in_progress"
    by (simp_all add: ex_defs)
  have 2: "find (\<lambda>a. exam a = 1 \<and> student a = uid ex_student \<and> status a \<noteq> cancelled)
             (attempts ex_db) = Some ex_attempt"
    by (simp add: ex_defs)
  show ?thesis
    using start_resumes_attempt [of ex_student ex_db 1 ex_exam 3000 ex_attempt None]
      1 2 ex_found(2)
    by simp
qed

text \<open>
  The claim as written fails once the exam's window has closed: the student of the example
  still has the attempt in progress, and the start call answers 400.
\<close>

theorem start_after_end_counterexample:
  "Exam_findById ex_db_ended 1 = Some (ex_exam\<lparr>endTime := Some 2000\<rparr>)
   \<and> \<not> allowMultipleAttempts (ex_exam\<lparr>endTime := Some 2000\<rparr>)
   \<and> find (\<lambda>a. exam a = 1 \<and> student a = uid ex_student \<and> status a = in_progress)
        (attempts ex_db_ended) = Some ex_attempt
   \<and> start_exam ex_db_ended ex_student 1 3000 = Inl (400, ''Exam has ended'')"
  by (simp add: ex_defs op_defs ex_arith)

section \<open>Flag monotonicity\<close>

lemma find_append_other:
  "\<not> P x \<Longrightarrow> find P (xs @ [x]) = find P xs"
  by (induction xs) auto

lemma find_filter_distinct:
  assumes "distinct (map f xs)"
  shows "find (\<lambda>y. f y = i) (filter Q xs)
           = (case find (\<lambda>y. f y = i) xs of None \<Rightarrow> None | Some x \<Rightarrow> if Q x then Some x else None)"
  using assms
proof (induction xs)
  case Nil
  show ?case by simp
next
  case (Cons x xs)
  have none: "find (\<lambda>y. f y = i) (filter Q xs) = None" if "f x = i"
  proof -
    have "f x \<notin> f ` set xs"
      using Cons.prems by simp
    then have "\<forall>y \<in> set xs. f y \<noteq> i"
      using that by (metis image_eqI)
    then show ?thesis
      by (simp add: find_None_iff)
  qed
  show ?case
    using Cons none by auto
qed

text \<open>Well-formedness is kept by each way a handler changes the store.\<close>

lemma wf_db_empty: "wf_db empty_db"
  by (simp add: wf_db_def empty_db_def)

lemma save_ids:
  assumes "ExamAttempt_findById d (attempt_id b) = Some a"
  shows "map attempt_id (attempts (ExamAttempt_save d b)) = map attempt_id (attempts d)"
  by (auto simp: ExamAttempt_save_def)

lemma wf_db_ids:
  "wf_db d = (distinct (map attempt_id (attempts d))
              \<and> (\<forall>i \<in> set (map attempt_id (attempts d)). i < next_oid d))"
  by (auto simp: wf_db_def list_all_iff)

lemma wf_db_save:
  assumes "wf_db d" and "ExamAttempt_findById d (attempt_id b) = Some a"
  shows "wf_db (ExamAttempt_save d b)"
proof -
  have "next_oid (ExamAttempt_save d b) = next_oid d"
    by (simp add: ExamAttempt_save_def)
  then show ?thesis
    using assms(1) unfolding wf_db_ids save_ids [OF assms(2)] by simp
qed

lemma wf_db_exams:
  assumes "wf_db d" and "attempts d' = attempts d" and "next_oid d \<le> next_oid d'"
  shows "wf_db d'"
  using assms by (auto simp: wf_db_def list_all_iff)

lemma wf_db_append:
  assumes "wf_db d" and "attempt_id b = next_oid d"
  shows "wf_db (d\<lparr>attempts := attempts d @ [b], next_oid := Suc (next_oid d)\<rparr>)"
  using assms by (auto simp: wf_db_def list_all_iff)

lemma wf_db_filter:
  assumes "wf_db d"
  shows "wf_db (d\<lparr>exams := xs, attempts := filter Q (attempts d)\<rparr>)"
  using assms by (auto simp: wf_db_def list_all_iff distinct_map_filter)

text \<open>So is the flag of a stored attempt, and an identity once handed out is not reused.\<close>

lemma flag_kept_save:
  assumes "flag_kept d aid"
    and "ExamAttempt_findById d (attempt_id b) = Some a"
    and "flagged a \<longrightarrow> flagged b"
  shows "flag_kept (ExamAttempt_save d b) aid"
proof -
  have wf: "wf_db (ExamAttempt_save d b)"
    using assms(1,2) by (auto simp: flag_kept_def intro: wf_db_save)
  have n: "next_oid (ExamAttempt_save d b) = next_oid d"
    by (simp add: ExamAttempt_save_def)
  show ?thesis
  proof (cases "aid = attempt_id b")
    case True
    then have "ExamAttempt_findById (ExamAttempt_save d b) aid = Some b"
      using assms(2) by (simp add: findById_save)
    then show ?thesis
      using assms True wf n by (simp add: flag_kept_def)
  next
    case False
    then have "ExamAttempt_findById (ExamAttempt_save d b) aid = ExamAttempt_findById d aid"
      by (simp add: findById_save_other)
    then show ?thesis
      using assms(1) wf n by (simp add: flag_kept_def)
  qed
qed

lemma flag_kept_exams:
  assumes "flag_kept d aid" and "attempts d' = attempts d" and "next_oid d \<le> next_oid d'"
  shows "flag_kept d' aid"
  using assms wf_db_exams [of d d']
  by (auto simp: flag_kept_def ExamAttempt_findById_def)

lemma flag_kept_append:
  assumes "flag_kept d aid" and "attempt_id b = next_oid d"
  shows "flag_kept (d\<lparr>attempts := attempts d @ [b], next_oid := Suc (next_oid d)\<rparr>) aid"
proof -
  have "attempt_id b \<noteq> aid"
    using assms by (simp add: flag_kept_def)
  then have "find (\<lambda>a. attempt_id a = aid) (attempts d @ [b]) = find (\<lambda>a. attempt_id a = aid) (attempts d)"
    by (simp add: find_append_other)
  then show ?thesis
    using assms wf_db_append [of d b] by (simp add: flag_kept_def ExamAttempt_findById_def)
qed

lemma flag_kept_filter:
  assumes "flag_kept d aid"
  shows "flag_kept (d\<lparr>exams := xs, attempts := filter Q (attempts d)\<rparr>) aid"
proof -
  have dist: "distinct (map attempt_id (attempts d))"
    using assms by (simp add: flag_kept_def wf_db_def)
  show ?thesis
    using assms find_filter_distinct [OF dist, of aid Q] wf_db_filter [where d = d and xs = xs and Q = Q]
    by (auto simp: flag_kept_def ExamAttempt_findById_def split: option.splits if_splits)
qed

text \<open>Each handler keeps both.\<close>

lemma findById_self: "ExamAttempt_findById d j = Some a \<Longrightarrow> ExamAttempt_findById d (attempt_id a) = Some a"
  using findById_id [of d j a] by simp

lemma start_exam_keeps:
  shows "wf_db d \<Longrightarrow> wf_db (after (start_exam d u eid now) d)"
    and "flag_kept d aid \<Longrightarrow> flag_kept (after (start_exam d u eid now) d) aid"
  by (auto simp: start_exam_def after_def Let_def new_attempt_def
      intro!: flag_kept_append wf_db_append split: option.splits)

lemma save_answer_keeps:
  shows "wf_db d \<Longrightarrow> wf_db (case save_answer d u j qid v of Inl _ \<Rightarrow> d | Inr d' \<Rightarrow> d')"
    and "flag_kept d aid \<Longrightarrow>
         flag_kept (case save_answer d u j qid v of Inl _ \<Rightarrow> d | Inr d' \<Rightarrow> d') aid"
  by (auto simp: save_answer_def findById_self
      intro!: flag_kept_save wf_db_save split: option.splits)

lemma submit_attempt_keeps:
  shows "wf_db d \<Longrightarrow> wf_db (after (submit_attempt env d u j autoSubmit now) d)"
    and "flag_kept d aid \<Longrightarrow> flag_kept (after (submit_attempt env d u j autoSubmit now) d) aid"
  by (auto simp: submit_attempt_def after_def Let_def graded_attempt_fields graded_attempt_flagged
      findById_self intro!: flag_kept_save wf_db_save split: option.splits)

lemma log_violation_keeps:
  shows "wf_db d \<Longrightarrow> wf_db (after (log_violation env d j ty descr sev now) d)"
    and "flag_kept d aid \<Longrightarrow> flag_kept (after (log_violation env d j ty descr sev now) d) aid"
  by (auto simp: log_violation_def after_def Let_def with_violation_fields with_violation_flagged
      findById_self intro!: flag_kept_save wf_db_save split: option.splits)

lemma save_snapshot_keeps:
  shows "wf_db d \<Longrightarrow> wf_db (after (save_snapshot d j url now) d)"
    and "flag_kept d aid \<Longrightarrow> flag_kept (after (save_snapshot d j url now) d) aid"
  by (auto simp: save_snapshot_def after_def findById_self
      intro!: flag_kept_save wf_db_save split: option.splits)

lemma create_exam_keeps:
  shows "wf_db d \<Longrightarrow> wf_db (after (create_exam d u body) d)"
    and "flag_kept d aid \<Longrightarrow> flag_kept (after (create_exam d u body) d) aid"
  by (auto simp: create_exam_def after_def Let_def intro: flag_kept_exams wf_db_exams)

lemma update_exam_keeps:
  shows "wf_db d \<Longrightarrow> wf_db (after (update_exam d u eid updates) d)"
    and "flag_kept d aid \<Longrightarrow> flag_kept (after (update_exam d u eid updates) d) aid"
  by (auto simp: update_exam_def after_def Let_def intro: flag_kept_exams wf_db_exams
      split: option.splits)

lemma delete_exam_keeps:
  shows "wf_db d \<Longrightarrow> wf_db (case delete_exam d u eid of Inl _ \<Rightarrow> d | Inr d' \<Rightarrow> d')"
    and "flag_kept d aid \<Longrightarrow>
         flag_kept (case delete_exam d u eid of Inl _ \<Rightarrow> d | Inr d' \<Rightarrow> d') aid"
  by (auto simp: delete_exam_def intro!: flag_kept_filter wf_db_filter split: option.splits)

lemma wf_db_handle: "wf_db d \<Longrightarrow> wf_db (handle env d req)"
  by (cases req)
    (simp_all add: start_exam_keeps save_answer_keeps submit_attempt_keeps log_violation_keeps
      save_snapshot_keeps create_exam_keeps update_exam_keeps delete_exam_keeps)

lemma flag_kept_handle: "flag_kept d aid \<Longrightarrow> flag_kept (handle env d req) aid"
  by (cases req)
    (simp_all add: start_exam_keeps save_answer_keeps submit_attempt_keeps log_violation_keeps
      save_snapshot_keeps create_exam_keeps update_exam_keeps delete_exam_keeps)

lemma flag_kept_handle_all: "flag_kept d aid \<Longrightarrow> flag_kept (handle_all env d reqs) aid"
  by (induction reqs arbitrary: d) (simp_all add: flag_kept_handle)

text \<open>Every store the requests build from the empty one is well formed.\<close>

lemma wf_db_handle_all: "wf_db d \<Longrightarrow> wf_db (handle_all env d reqs)"
  by (induction reqs arbitrary: d) (simp_all add: wf_db_handle)

lemma wf_db_reachable: "wf_db (handle_all env empty_db reqs)"
  by (rule wf_db_handle_all) (rule wf_db_empty)

text \<open>
  C9. Once \<open>flagged\<close> is true on an attempt, no sequence of requests (start, save answer,
  submit, log violation, save snapshot, get attempt, and the creation, update and deletion of
  exams) sets it back to false: wherever the attempt is still stored afterwards, it is
  flagged. The store is well formed, as every store built by requests is.
\<close>

theorem flag_monotone:
  assumes "wf_db d"
    and "ExamAttempt_findById d aid = Some a"
    and "flagged a"
    and "ExamAttempt_findById (handle_all env d reqs) aid = Some a'"
  shows "flagged a'"
proof -
  have "a \<in> set (attempts d)" and "attempt_id a = aid"
    using assms(2) by (auto simp: ExamAttempt_findById_def find_Some_iff)
  then have "aid < next_oid d"
    using assms(1) by (auto simp: wf_db_def list_all_iff)
  then have "flag_kept d aid"
    using assms(1-3) by (simp add: flag_kept_def)
  then have "flag_kept (handle_all env d reqs) aid"
    by (rule flag_kept_handle_all)
  then show ?thesis
    using assms(4) by (simp add: flag_kept_def)
qed

lemma ex_flagged_found:
  "ExamAttempt_findById ex_db_flagged 1
     = Some (ex_attempt\<lparr>flagged := True, flagReason := Some (violation_flagReason 6)\<rparr>)"
  by (simp add: ex_defs op_defs ex_arith)

lemma ex_flagged_wf: "wf_db ex_db_flagged"
  by (simp add: wf_db_def ex_defs)

text \<open>
  A flagged attempt stays flagged through an answer, a \<^verbatim>\<open>right_click\<close> violation, a
  snapshot and the submit, whose check does not fire on one violation.
\<close>

theorem flag_monotone_witness:
  "wf_db ex_db_flagged
   \<and> ExamAttempt_findById ex_db_flagged 1
       = Some (ex_attempt\<lparr>flagged := True, flagReason := Some (violation_flagReason 6)\<rparr>)
   \<and> flagged (ex_attempt\<lparr>flagged := True, flagReason := Some (violation_flagReason 6)\<rparr>)
   \<and> map_option (\<lambda>a'. (status a', length (violations a'), flagged a'))
        (ExamAttempt_findById
           (handle_all None ex_db_flagged
              [SaveAnswer ex_student 1 2 (JStr ''True''),
               LogViolation 1 ''right_click'' None None 1600,
               SaveSnapshot 1 ''/uploads/snapshots/1.png'' 1700,
               SubmitAttempt ex_student 1 False 61000]) 1)
      = Some (submitted, 1, True)"
proof -
  let ?reqs = "[SaveAnswer ex_student 1 2 (JStr ''True''),
               LogViolation 1 ''right_click'' None None 1600,
               SaveSnapshot 1 ''/uploads/snapshots/1.png'' 1700,
               SubmitAttempt ex_student 1 False 61000]"
  have f: "flagged (ex_attempt\<lparr>flagged := True, flagReason := Some (violation_flagReason 6)\<rparr>)"
    by simp
  have s: "map_option (\<lambda>a'. (status a', length (violations a')))
             (ExamAttempt_findById (handle_all None ex_db_flagged ?reqs) 1) = Some (submitted, 1)"
    by (simp add: ex_defs op_defs ex_arith findIndex.simps upsert_answer_def)
  then obtain a' where a': "ExamAttempt_findById (handle_all None ex_db_flagged ?reqs) 1 = Some a'"
    by auto
  show ?thesis
    using flag_monotone [OF ex_flagged_wf ex_flagged_found f a'] ex_flagged_wf ex_flagged_found s a'
    by simp
qed

end
